theory Spec2Isabelle
  imports Complex_Main
begin

section \<open>Python values: exceptions, strings, dictionaries\<close>

text \<open>
  Every exception the pipeline can meet is a value. A constructor stands for the named
  Python class and its subclasses; \<open>OtherException\<close> stands for every class outside
  these hierarchies (a transport timeout, an \<open>OSError\<close>, ...). pandas'
  \<open>OutOfBoundsDatetime\<close> is a subclass of \<open>ValueError\<close>.
\<close>

datatype exn =
    KeyError string
  | ValueError string
  | TypeError string
  | RuntimeError string
  | ApiException int string
  | OtherException string

text \<open>
  Region codes and file names are modelled as ASCII strings: \<open>str.upper\<close> and
  \<open>str.lower\<close> map the 26 letters and leave every other character alone.
\<close>

definition is_lower_char :: "char \<Rightarrow> bool" where
  "is_lower_char c = (97 \<le> (of_char c :: nat) \<and> (of_char c :: nat) \<le> 122)"

definition is_upper_char :: "char \<Rightarrow> bool" where
  "is_upper_char c = (65 \<le> (of_char c :: nat) \<and> (of_char c :: nat) \<le> 90)"

definition upper_char :: "char \<Rightarrow> char" where
  "upper_char c = (if is_lower_char c then char_of ((of_char c :: nat) - 32) else c)"

definition lower_char :: "char \<Rightarrow> char" where
  "lower_char c = (if is_upper_char c then char_of ((of_char c :: nat) + 32) else c)"

definition str_upper :: "string \<Rightarrow> string" where
  "str_upper s = map upper_char s"

definition str_lower :: "string \<Rightarrow> string" where
  "str_lower s = map lower_char s"

text \<open>
  A Python \<open>dict\<close> is an association list in insertion order with distinct keys.
  Assigning to a key that is present replaces the value and keeps the key's position;
  assigning to a new key appends.
\<close>

fun dict_set :: "('k \<times> 'v) list \<Rightarrow> 'k \<Rightarrow> 'v \<Rightarrow> ('k \<times> 'v) list" where
  "dict_set [] k v = [(k, v)]"
| "dict_set ((k', v') # d) k v =
     (if k' = k then (k', v) # d else (k', v') # dict_set d k v)"

section \<open>Data model\<close>

record 'p PricePoint =
  timestamp :: int
  price :: 'p

record 'p PriceResponse =
  success :: bool
  data :: "(string \<times> 'p PricePoint list) list"

text \<open>A pandas \<open>Timestamp\<close> in UTC: nanoseconds since the epoch.\<close>

datatype Timestamp = Timestamp (ns: int)

text \<open>A row of the long table; \<open>None\<close> is the missing value (NaN).\<close>

record 'p PriceRow =
  time :: Timestamp
  area :: string
  val :: "'p option"

section \<open>The pandas operations used by the transformer\<close>

text \<open>
  The library calls of \<open>convert_to_dataframe\<close>, each as a function on the data it
  reads and with the exceptions it raises, as pandas 2 performs them.

  \<open>pd.DataFrame(prices).set_index("timestamp")["price"]\<close>: a list of records becomes a
  frame with the columns \<open>timestamp\<close> and \<open>price\<close>, one row per record in order;
  \<open>set_index\<close> moves \<open>timestamp\<close> into the index (it keeps every row, also rows
  with equal labels) and the selection takes the \<open>price\<close> column as a Series.
  An empty list gives a frame with no columns, on which \<open>set_index\<close> raises
  \<open>KeyError\<close>.
\<close>

type_synonym 'p series = "(int \<times> 'p) list"

definition price_series :: "'p PricePoint list \<Rightarrow> exn + 'p series" where
  "price_series prices =
     (if prices = [] then Inl (KeyError ''None of [timestamp] are in the columns'')
      else Inr (map (\<lambda>p. (timestamp p, price p)) prices))"

text \<open>
  \<open>pd.DataFrame(df_dict)\<close> on a dictionary of Series. The row index is the union of the
  Series' indexes: the default empty index for an empty dictionary; the first index
  itself when all indexes are equal (in particular when there is one); the sorted
  distinct labels otherwise. Every Series is then aligned to it: a Series whose index
  equals the target is taken as it is, a Series whose index has a repeated label cannot
  be aligned (\<open>ValueError\<close>), any other Series is looked up label by label, a label it
  does not have giving the missing value.
\<close>

record ('i, 'p) frame =
  index :: "'i list"
  columns :: "(string \<times> 'p option list) list"

definition union_indexes :: "int list list \<Rightarrow> int list" where
  "union_indexes idxs =
     (case idxs of
        [] \<Rightarrow> []
      | i # others \<Rightarrow>
          if list_all (\<lambda>j. j = i) others then i else sort (remdups (concat idxs)))"

definition reindex :: "'p series \<Rightarrow> int list \<Rightarrow> exn + 'p option list" where
  "reindex s idx =
     (if map fst s = idx then Inr (map (\<lambda>tv. Some (snd tv)) s)
      else if \<not> distinct (map fst s)
        then Inl (ValueError ''cannot reindex on an axis with duplicate labels'')
      else Inr (map (map_of s) idx))"

fun homogenize ::
  "(string \<times> 'p series) list \<Rightarrow> int list \<Rightarrow> exn + (string \<times> 'p option list) list" where
  "homogenize [] idx = Inr []"
| "homogenize ((c, s) # rest) idx =
     (case reindex s idx of
        Inl e \<Rightarrow> Inl e
      | Inr col \<Rightarrow>
          (case homogenize rest idx of
             Inl e \<Rightarrow> Inl e
           | Inr cols \<Rightarrow> Inr ((c, col) # cols)))"

definition DataFrame_of_dict :: "(string \<times> 'p series) list \<Rightarrow> exn + (int, 'p) frame" where
  "DataFrame_of_dict df_dict =
     (let idx = union_indexes (map (\<lambda>cs. map fst (snd cs)) df_dict)
      in case homogenize df_dict idx of
           Inl e \<Rightarrow> Inl e
         | Inr cols \<Rightarrow> Inr \<lparr>index = idx, columns = cols\<rparr>)"

text \<open>
  \<open>pd.to_datetime(df.index, unit="s", utc=True)\<close>: epoch seconds become nanosecond
  timestamps; a value that does not fit the 64-bit nanosecond range raises
  \<open>OutOfBoundsDatetime\<close>.
\<close>

definition in_bounds :: "int \<Rightarrow> bool" where
  "in_bounds t = (- 9223372036 \<le> t \<and> t \<le> 9223372036)"

definition to_datetime :: "int list \<Rightarrow> exn + Timestamp list" where
  "to_datetime idx =
     (if list_all in_bounds idx then Inr (map (\<lambda>t. Timestamp (t * 1000000000)) idx)
      else Inl (ValueError ''OutOfBoundsDatetime''))"

text \<open>
  \<open>df.reset_index()\<close> inserts the index, named \<open>time\<close>, as the first column and
  raises \<open>ValueError\<close> when a column of that name exists.
  \<open>melt(id_vars=["time"], var_name="area", value_name="value")\<close> raises
  \<open>ValueError\<close> when a column is named \<open>value\<close>; otherwise it stacks the value
  columns in column order, repeating the \<open>time\<close> column for each. The final
  \<open>set_index("time")\<close> keeps every row and is the identity on the row list.
\<close>

definition reset_index :: "(Timestamp, 'p) frame \<Rightarrow> exn + (Timestamp, 'p) frame" where
  "reset_index df =
     (if ''time'' \<in> set (map fst (columns df))
      then Inl (ValueError ''cannot insert time, already exists'')
      else Inr df)"

definition melt_column :: "Timestamp list \<Rightarrow> string \<times> 'p option list \<Rightarrow> 'p PriceRow list" where
  "melt_column ts col =
     map (\<lambda>tv. \<lparr>time = fst tv, area = fst col, val = snd tv\<rparr>) (zip ts (snd col))"

definition melt :: "(Timestamp, 'p) frame \<Rightarrow> exn + 'p PriceRow list" where
  "melt df =
     (if ''value'' \<in> set (''time'' # map fst (columns df))
      then Inl (ValueError ''value_name (value) cannot match an element in the DataFrame columns.'')
      else Inr (concat (map (melt_column (index df)) (columns df))))"

section \<open>Shape Transformer: \<open>convert_to_dataframe\<close>\<close>

fun build_df_dict ::
  "(string \<times> 'p PricePoint list) list \<Rightarrow> (string \<times> 'p series) list
     \<Rightarrow> exn + (string \<times> 'p series) list" where
  "build_df_dict [] df_dict = Inr df_dict"
| "build_df_dict ((country, prices) # rest) df_dict =
     (case price_series prices of
        Inl e \<Rightarrow> Inl e
      | Inr s \<Rightarrow> build_df_dict rest (dict_set df_dict country s))"

definition convert_to_dataframe :: "'p PriceResponse \<Rightarrow> exn + 'p PriceRow list" where
  "convert_to_dataframe r =
     (case build_df_dict (data r) [] of
        Inl e \<Rightarrow> Inl e
      | Inr df_dict \<Rightarrow>
     (case DataFrame_of_dict df_dict of
        Inl e \<Rightarrow> Inl e
      | Inr df \<Rightarrow>
     (case to_datetime (index df) of
        Inl e \<Rightarrow> Inl e
      | Inr ts \<Rightarrow>
     (case reset_index \<lparr>index = ts, columns = columns df\<rparr> of
        Inl e \<Rightarrow> Inl e
      | Inr df' \<Rightarrow> melt df'))))"

section \<open>Reading a timestamp as a UTC calendar instant\<close>

text \<open>
  The proleptic Gregorian calendar date and the time of day of a nanosecond timestamp,
  in UTC (no leap seconds, as in pandas).
\<close>

record utc_instant =
  year :: int
  month :: int
  day :: int
  hour :: int
  minute :: int
  second :: int

definition civil_from_days :: "int \<Rightarrow> int \<times> int \<times> int" where
  "civil_from_days z0 =
     (let z = z0 + 719468;
          era = z div 146097;
          doe = z - era * 146097;
          yoe = (doe - doe div 1460 + doe div 36524 - doe div 146096) div 365;
          y = yoe + era * 400;
          doy = doe - (365 * yoe + yoe div 4 - yoe div 100);
          mp = (5 * doy + 2) div 153;
          d = doy - (153 * mp + 2) div 5 + 1;
          m = (if mp < 10 then mp + 3 else mp - 9)
      in (if m \<le> 2 then y + 1 else y, m, d))"

definition utc_fields :: "Timestamp \<Rightarrow> utc_instant" where
  "utc_fields t =
     (let secs = ns t div 1000000000;
          sod = secs mod 86400;
          ymd = civil_from_days (secs div 86400)
      in \<lparr>year = fst ymd, month = fst (snd ymd), day = snd (snd ymd),
          hour = sod div 3600, minute = (sod mod 3600) div 60, second = sod mod 60\<rparr>)"

section \<open>Effects: the trace of a run\<close>

datatype level = DEBUG | INFO | WARNING | ERROR | CRITICAL

datatype file_format = Parquet | Csv | Excel

text \<open>
  What a run does to the outside world, in order: log calls (\<open>LogFrame\<close> is a log call
  whose message is the printed table), files written, and the one network call of the
  pipeline's export stage, the database write.
\<close>

datatype event =
    Log level string
  | LogFrame level
  | FileWritten file_format string
  | NetworkWrite "string option" "string option" "string option" "string option" string

section \<open>File Exporter: \<open>save_to_file\<close>\<close>

text \<open>
  \<open>os.path.splitext\<close> (POSIX): the extension starts at the last dot of the last path
  component, unless that component has only dots before it.
\<close>

definition rfind :: "char \<Rightarrow> string \<Rightarrow> int" where
  "rfind c p =
     (case filter (\<lambda>i. p ! i = c) (rev [0 ..< length p]) of
        [] \<Rightarrow> - 1
      | i # _ \<Rightarrow> int i)"

definition splitext :: "string \<Rightarrow> string \<times> string" where
  "splitext p =
     (let sepIndex = rfind CHR ''/'' p;
          dotIndex = rfind CHR ''.'' p
      in if dotIndex > sepIndex
            \<and> list_ex (\<lambda>i. p ! i \<noteq> CHR ''.'') [nat (sepIndex + 1) ..< nat dotIndex]
         then (take (nat dotIndex) p, drop (nat dotIndex) p)
         else (p, []))"

text \<open>
  Whether \<open>to_parquet\<close>, \<open>to_csv\<close> or \<open>to_excel\<close> succeeds on a path is decided
  outside the program (the file system, the installed writers): \<open>io\<close> gives the
  exception the call raises, if any. An exception of the writer propagates.
\<close>

type_synonym 'p file_io = "file_format \<Rightarrow> string \<Rightarrow> 'p PriceRow list \<Rightarrow> exn option"

definition write_file ::
  "'p file_io \<Rightarrow> file_format \<Rightarrow> string \<Rightarrow> 'p PriceRow list \<Rightarrow> string \<Rightarrow> event list
     \<Rightarrow> event list \<times> exn option" where
  "write_file io fmt label df filename tr =
     (case io fmt filename df of
        Some e \<Rightarrow> (tr, Some e)
      | None \<Rightarrow>
          (tr @ [FileWritten fmt filename,
                 Log INFO (''Data saved to '' @ label @ '' file: '' @ filename)], None))"

definition save_to_file ::
  "'p file_io \<Rightarrow> 'p PriceRow list \<Rightarrow> string \<Rightarrow> event list \<Rightarrow> event list \<times> exn option" where
  "save_to_file io df filename tr =
     (let ext = str_lower (snd (splitext filename))
      in if ext = ''.parquet'' then write_file io Parquet ''Parquet'' df filename tr
         else if ext = ''.csv'' then write_file io Csv ''CSV'' df filename tr
         else if ext = ''.xlsx'' then write_file io Excel ''Excel'' df filename tr
         else (tr @ [Log WARNING (''Unsupported file extension: '' @ ext
                                   @ ''. Skipping file: '' @ filename)], None))"

text \<open>The loop of \<open>main\<close> over \<open>args.output_filename\<close>.\<close>

fun save_all ::
  "'p file_io \<Rightarrow> 'p PriceRow list \<Rightarrow> string list \<Rightarrow> event list \<Rightarrow> event list \<times> exn option" where
  "save_all io df [] tr = (tr, None)"
| "save_all io df (filename # rest) tr =
     (case save_to_file io df filename tr of
        (tr', Some e) \<Rightarrow> (tr', Some e)
      | (tr', None) \<Rightarrow> save_all io df rest tr')"

section \<open>Time-Series DB Writer\<close>

text \<open>
  The process environment as \<open>get_influxdb_args\<close> reads it: the value of a command-line
  option when the option is given, and the value of an environment variable when it is
  set. Each option's default is the environment variable.
\<close>

record process_env =
  flag :: "string \<Rightarrow> string option"
  getenv :: "string \<Rightarrow> string option"

record influx_namespace =
  influxdb_url :: "string option"
  influxdb_token :: "string option"
  influxdb_org :: "string option"
  influxdb_bucket :: "string option"

definition option_or_default :: "process_env \<Rightarrow> string \<Rightarrow> string \<Rightarrow> string option" where
  "option_or_default pe opt var =
     (case flag pe opt of Some v \<Rightarrow> Some v | None \<Rightarrow> getenv pe var)"

definition parse_known_args :: "process_env \<Rightarrow> influx_namespace" where
  "parse_known_args pe =
     \<lparr>influxdb_url = option_or_default pe ''--influxdb-url'' ''INFLUXDB_URL'',
      influxdb_token = option_or_default pe ''--influxdb-token'' ''INFLUXDB_TOKEN'',
      influxdb_org = option_or_default pe ''--influxdb-org'' ''INFLUXDB_ORG'',
      influxdb_bucket = option_or_default pe ''--influxdb-bucket'' ''INFLUXDB_BUCKET''\<rparr>"

definition vars_of :: "influx_namespace \<Rightarrow> (string \<times> string option) list" where
  "vars_of args =
     [(''influxdb_url'', influxdb_url args), (''influxdb_token'', influxdb_token args),
      (''influxdb_org'', influxdb_org args), (''influxdb_bucket'', influxdb_bucket args)]"

definition replace_char :: "char \<Rightarrow> char \<Rightarrow> string \<Rightarrow> string" where
  "replace_char a b s = map (\<lambda>c. if c = a then b else c) s"

definition py_str :: "string option \<Rightarrow> string" where
  "py_str v = (case v of None \<Rightarrow> ''None'' | Some s \<Rightarrow> s)"

function digits :: "nat \<Rightarrow> string" where
  "digits n = (if n < 10 then [char_of (48 + n)] else digits (n div 10) @ [char_of (48 + n mod 10)])"
  by pat_completeness auto
termination
  by (relation "measure (\<lambda>n. n)") auto

declare digits.simps [simp del]

definition str_of_int :: "int \<Rightarrow> string" where
  "str_of_int i = (if i < 0 then CHR ''-'' # digits (nat (- i)) else digits (nat i))"

text \<open>The check that the mandatory variables are present, in the order of the source.\<close>

fun check_mandatory :: "(string \<times> string option) list \<Rightarrow> string list \<Rightarrow> exn option" where
  "check_mandatory args_dict [] = None"
| "check_mandatory args_dict (arg # rest) =
     (case map_of args_dict (str_lower arg) of
        None \<Rightarrow> Some (KeyError (str_lower arg))
      | Some None \<Rightarrow>
          Some (RuntimeError (''Parameter missing: add --''
                  @ replace_char CHR ''_'' CHR ''-'' (str_lower arg)
                  @ '' or '' @ arg @ '' environment variable''))
      | Some (Some v) \<Rightarrow> check_mandatory args_dict rest)"

type_synonym influx_params = "string option \<times> string option \<times> string option \<times> string option"

definition get_influxdb_args :: "process_env \<Rightarrow> event list \<Rightarrow> event list \<times> (exn + influx_params)" where
  "get_influxdb_args pe tr =
     (let args = parse_known_args pe;
          args_dict = vars_of args
      in case check_mandatory args_dict
                [''INFLUXDB_URL'', ''INFLUXDB_TOKEN'', ''INFLUXDB_ORG'', ''INFLUXDB_BUCKET''] of
           Some e \<Rightarrow> (tr, Inl e)
         | None \<Rightarrow>
             (tr @ [Log INFO (''Got InfluxDB parameters url='' @ py_str (influxdb_url args)
                      @ '', token=*****, org='' @ py_str (influxdb_org args)
                      @ '', bucket='' @ py_str (influxdb_bucket args))],
              Inr (influxdb_url args, influxdb_token args, influxdb_org args,
                   influxdb_bucket args)))"

text \<open>
  The call \<open>write_api.write(...)\<close> is the network call. What the database answers is
  decided outside the program: \<open>db\<close> gives the exception the call raises, if any.
  Creating the client and the write API opens no connection.
\<close>

record 'p write_call =
  wc_url :: "string option"
  wc_token :: "string option"
  wc_org :: "string option"
  wc_bucket :: "string option"
  wc_record :: "'p PriceRow list"
  wc_measurement :: string
  wc_tag_columns :: "string list option"
  wc_field_columns :: "string list option"

type_synonym 'p db_io = "'p write_call \<Rightarrow> exn option"

text \<open>The two \<open>except\<close> clauses of \<open>write_dataframe_to_influxdb\<close>.\<close>

definition handle_write_error :: "exn \<Rightarrow> event list \<Rightarrow> event list \<times> (exn + bool)" where
  "handle_write_error e tr =
     (case e of
        ApiException status reason \<Rightarrow>
          (if status = 401
           then (tr @ [Log CRITICAL (''Authentication error with InfluxDB: '' @ reason
                         @ ''. Check your token and permissions.'')], Inr False)
           else (tr @ [Log CRITICAL (''InfluxDB API error: '' @ str_of_int status
                         @ '' - '' @ reason)], Inr False))
      | ValueError msg \<Rightarrow>
          (tr @ [Log ERROR (''Error writing DataFrame to InfluxDB: '' @ msg)], Inr False)
      | TypeError msg \<Rightarrow>
          (tr @ [Log ERROR (''Error writing DataFrame to InfluxDB: '' @ msg)], Inr False)
      | RuntimeError msg \<Rightarrow>
          (tr @ [Log ERROR (''Error writing DataFrame to InfluxDB: '' @ msg)], Inr False)
      | KeyError msg \<Rightarrow> (tr, Inl e)
      | OtherException msg \<Rightarrow> (tr, Inl e))"

definition write_dataframe_to_influxdb ::
  "process_env \<Rightarrow> 'p db_io \<Rightarrow> 'p PriceRow list \<Rightarrow> string \<Rightarrow> string list option
     \<Rightarrow> string list option \<Rightarrow> event list \<Rightarrow> event list \<times> (exn + bool)" where
  "write_dataframe_to_influxdb pe db df measurement_name tag_columns field_columns tr =
     (case get_influxdb_args pe tr of
        (tr1, Inl e) \<Rightarrow> handle_write_error e tr1
      | (tr1, Inr (url, token, org, bucket)) \<Rightarrow>
          (let tr2 = tr1 @ [Log INFO (''Write DataFrame into '' @ py_str url @ ''/''
                              @ py_str org @ ''/'' @ py_str bucket),
                            LogFrame DEBUG,
                            NetworkWrite url token org bucket measurement_name]
           in case db \<lparr>wc_url = url, wc_token = token, wc_org = org, wc_bucket = bucket,
                        wc_record = df, wc_measurement = measurement_name,
                        wc_tag_columns = tag_columns, wc_field_columns = field_columns\<rparr> of
                None \<Rightarrow> (tr2, Inr True)
              | Some e \<Rightarrow> handle_write_error e tr2))"

section \<open>The pipeline: \<open>main\<close>\<close>

text \<open>The dictionary comprehension \<open>{k.upper(): v for k, v in data["data"].items()}\<close>.\<close>

fun upper_keys_into :: "(string \<times> 'v) list \<Rightarrow> (string \<times> 'v) list \<Rightarrow> (string \<times> 'v) list" where
  "upper_keys_into [] acc = acc"
| "upper_keys_into ((k, v) # rest) acc = upper_keys_into rest (dict_set acc (str_upper k) v)"

definition upper_keys :: "(string \<times> 'v) list \<Rightarrow> (string \<times> 'v) list" where
  "upper_keys d = upper_keys_into d []"

text \<open>
  The transform step of \<open>main\<close>: the keys are normalised, then, when the response
  reports success, the table is built; \<open>None\<close> is the branch that only logs the failure.
\<close>

definition transform :: "'p PriceResponse \<Rightarrow> exn + 'p PriceRow list option" where
  "transform r =
     (let r' = r\<lparr>data := upper_keys (data r)\<rparr>
      in if success r'
         then (case convert_to_dataframe r' of Inl e \<Rightarrow> Inl e | Inr df \<Rightarrow> Inr (Some df))
         else Inr None)"

text \<open>
  A run of \<open>main\<close> after argument parsing: \<open>fetched\<close> is what
  \<open>fetch_electricity_prices\<close> returns or raises. The result is the trace and the
  exception that ends the process, if any (\<open>None\<close>: exit status 0).
\<close>

record 'p run =
  proc :: process_env
  fetched :: "exn + 'p PriceResponse"
  output_filename :: "string list option"
  influxdb_measurement :: string
  files :: "'p file_io"
  db_answer :: "'p db_io"

definition main :: "'p run \<Rightarrow> event list \<times> exn option" where
  "main env =
     (case fetched env of
        Inl e \<Rightarrow> ([], Some e)
      | Inr r \<Rightarrow>
     (case transform r of
        Inl e \<Rightarrow> ([], Some e)
      | Inr None \<Rightarrow> ([Log ERROR ''Failed to fetch data''], None)
      | Inr (Some df) \<Rightarrow>
     (case save_all (files env) df (case output_filename env of None \<Rightarrow> [] | Some fs \<Rightarrow> fs)
             [LogFrame INFO] of
        (tr, Some e) \<Rightarrow> (tr, Some e)
      | (tr, None) \<Rightarrow>
     (case write_dataframe_to_influxdb (proc env) (db_answer env) df (influxdb_measurement env)
             (Some [''area'']) (Some [''value'']) tr of
        (tr', Inl e) \<Rightarrow> (tr', Some e)
      | (tr', Inr ok) \<Rightarrow> (tr', None)))))"

section \<open>Auxiliary notions for the proofs\<close>

text \<open>Two dictionaries that agree except, possibly, on the value stored under one key.\<close>

definition agree_except :: "'k \<Rightarrow> ('k \<times> 'v) list \<Rightarrow> ('k \<times> 'v) list \<Rightarrow> bool" where
  "agree_except K a b = list_all2 (\<lambda>x y. fst x = fst y \<and> (fst x \<noteq> K \<longrightarrow> snd x = snd y)) a b"

section \<open>Notions used to state the properties\<close>

text \<open>The files a trace reports as written, in order.\<close>

fun written_files :: "event list \<Rightarrow> string list" where
  "written_files [] = []"
| "written_files (FileWritten fmt filename # tr) = filename # written_files tr"
| "written_files (e # tr) = written_files tr"

text \<open>A path whose extension, compared without regard to case, selects a writer.\<close>

definition supported_extension :: "string \<Rightarrow> bool" where
  "supported_extension filename =
     (str_lower (snd (splitext filename)) \<in> {''.parquet'', ''.csv'', ''.xlsx''})"

text \<open>A connection parameter given neither as an option nor in the environment.\<close>

definition absent :: "process_env \<Rightarrow> string \<Rightarrow> string \<Rightarrow> bool" where
  "absent pe opt var = (flag pe opt = None \<and> getenv pe var = None)"

text \<open>The union of the per-region timestamp sets of a data mapping.\<close>

definition timestamps_of :: "(string \<times> 'p PricePoint list) list \<Rightarrow> int set" where
  "timestamps_of d = (\<Union>kp \<in> set d. timestamp ` set (snd kp))"

section \<open>Strings and dictionaries\<close>

lemma upper_char_not_lower: "\<not> is_lower_char (upper_char c)"
proof (cases "is_lower_char c")
  case True
  then have b: "97 \<le> (of_char c :: nat)" "(of_char c :: nat) \<le> 122"
    by (simp_all add: is_lower_char_def)
  have "(of_char (char_of ((of_char c :: nat) - 32)) :: nat) = ((of_char c :: nat) - 32) mod 256"
    by (rule of_char_of)
  also have "\<dots> = (of_char c :: nat) - 32" using b by simp
  finally have "(of_char (char_of ((of_char c :: nat) - 32)) :: nat) \<le> 90" using b by simp
  with True show ?thesis by (simp add: upper_char_def is_lower_char_def)
next
  case False
  then show ?thesis by (simp add: upper_char_def)
qed

lemma upper_char_idem: "upper_char (upper_char c) = upper_char c"
  using upper_char_not_lower [of c] by (simp add: upper_char_def)

lemma str_upper_idem: "str_upper (str_upper s) = str_upper s"
  by (simp add: str_upper_def upper_char_idem)

lemma str_upper_no_lower: "c \<in> set (str_upper s) \<Longrightarrow> \<not> is_lower_char c"
  by (auto simp: str_upper_def upper_char_not_lower)

lemma lower_t: "is_lower_char CHR ''t''"
  by code_simp

lemma lower_v: "is_lower_char CHR ''v''"
  by code_simp

lemma str_upper_neq_time: "str_upper k \<noteq> ''time''"
proof
  assume "str_upper k = ''time''"
  then have "CHR ''t'' \<in> set (str_upper k)" by simp
  then show False using lower_t str_upper_no_lower by blast
qed

lemma str_upper_neq_value: "str_upper k \<noteq> ''value''"
proof
  assume "str_upper k = ''value''"
  then have "CHR ''v'' \<in> set (str_upper k)" by simp
  then show False using lower_v str_upper_no_lower by blast
qed

lemma dict_set_map_fst:
  "map fst (dict_set d k v) = (if k \<in> set (map fst d) then map fst d else map fst d @ [k])"
  by (induction d) (force split: if_splits)+

lemma dict_set_keys: "fst ` set (dict_set d k v) = insert k (fst ` set d)"
proof -
  have "set (map fst (dict_set d k v)) = insert k (set (map fst d))"
    by (auto simp: dict_set_map_fst)
  then show ?thesis by simp
qed

lemma dict_set_distinct: "distinct (map fst d) \<Longrightarrow> distinct (map fst (dict_set d k v))"
  by (simp add: dict_set_map_fst)

lemma dict_set_length: "length (dict_set d k v) \<le> Suc (length d)"
  by (induction d) auto

lemma dict_set_fresh: "k \<notin> fst ` set d \<Longrightarrow> dict_set d k v = d @ [(k, v)]"
  by (induction d) auto

lemma map_of_dict_set: "map_of (dict_set d k v) = (map_of d)(k \<mapsto> v)"
  by (induction d) auto

lemma dict_set_values: "set (map snd (dict_set d k v)) \<subseteq> insert v (set (map snd d))"
  by (induction d) (force split: if_splits)+

section \<open>Key normalisation\<close>

lemma upper_keys_into_append:
  "upper_keys_into (xs @ ys) acc = upper_keys_into ys (upper_keys_into xs acc)"
  by (induction xs arbitrary: acc) auto

lemma upper_keys_into_keys:
  "fst ` set (upper_keys_into d acc) = fst ` set acc \<union> str_upper ` fst ` set d"
proof (induction d arbitrary: acc)
  case Nil
  then show ?case by simp
next
  case (Cons kv d)
  obtain k v where kv: "kv = (k, v)" by (cases kv)
  have "fst ` set (upper_keys_into d (dict_set acc (str_upper k) v))
          = fst ` set (dict_set acc (str_upper k) v) \<union> str_upper ` fst ` set d"
    by (rule Cons.IH)
  also have "\<dots> = insert (str_upper k) (fst ` set acc) \<union> str_upper ` fst ` set d"
    by (simp only: dict_set_keys)
  finally show ?case using kv by simp
qed

lemma upper_keys_into_distinct:
  "distinct (map fst acc) \<Longrightarrow> distinct (map fst (upper_keys_into d acc))"
  by (induction d arbitrary: acc) (auto simp: dict_set_distinct)

lemma upper_keys_into_values:
  "set (map snd (upper_keys_into d acc)) \<subseteq> set (map snd acc) \<union> set (map snd d)"
proof (induction d arbitrary: acc)
  case Nil
  then show ?case by simp
next
  case (Cons kv d)
  obtain k v where kv: "kv = (k, v)" by (cases kv)
  have "set (map snd (upper_keys_into d (dict_set acc (str_upper k) v)))
          \<subseteq> set (map snd (dict_set acc (str_upper k) v)) \<union> set (map snd d)"
    by (rule Cons.IH)
  also have "\<dots> \<subseteq> insert v (set (map snd acc)) \<union> set (map snd d)"
    using dict_set_values [of acc "str_upper k" v] by blast
  finally show ?case using kv by auto
qed

lemma upper_keys_into_length:
  "length (upper_keys_into d acc) \<le> length acc + length d"
proof (induction d arbitrary: acc)
  case Nil
  then show ?case by simp
next
  case (Cons kv d)
  obtain k v where kv: "kv = (k, v)" by (cases kv)
  have "length (upper_keys_into d (dict_set acc (str_upper k) v))
          \<le> length (dict_set acc (str_upper k) v) + length d"
    by (rule Cons.IH)
  also have "\<dots> \<le> Suc (length acc) + length d"
    using dict_set_length [of acc "str_upper k" v] by simp
  finally show ?case using kv by simp
qed

lemma upper_keys_keys: "fst ` set (upper_keys d) = str_upper ` fst ` set d"
  by (simp add: upper_keys_def upper_keys_into_keys)

lemma upper_keys_distinct: "distinct (map fst (upper_keys d))"
  by (simp add: upper_keys_def upper_keys_into_distinct)

lemma upper_keys_values: "set (map snd (upper_keys d)) \<subseteq> set (map snd d)"
  using upper_keys_into_values [of d "[]"] by (simp add: upper_keys_def)

lemma upper_keys_length: "length (upper_keys d) \<le> length d"
  using upper_keys_into_length [of d "[]"] by (simp add: upper_keys_def)

lemma map_of_upper_keys_into_other:
  "\<forall>k \<in> fst ` set d. str_upper k \<noteq> K \<Longrightarrow> map_of (upper_keys_into d acc) K = map_of acc K"
  by (induction d arbitrary: acc) (auto simp: map_of_dict_set)

lemma agree_except_induct [consumes 1, case_names Nil Cons]:
  assumes "agree_except K a b"
    and "P [] []"
    and "\<And>x xs y ys. fst x = fst y \<Longrightarrow> (fst x \<noteq> K \<longrightarrow> snd x = snd y)
           \<Longrightarrow> agree_except K xs ys \<Longrightarrow> P xs ys \<Longrightarrow> P (x # xs) (y # ys)"
  shows "P a b"
  using assms unfolding agree_except_def
  by (induction a b rule: list_all2_induct) auto

lemma agree_except_Cons:
  "agree_except K (x # xs) (y # ys)
     = (fst x = fst y \<and> (fst x \<noteq> K \<longrightarrow> snd x = snd y) \<and> agree_except K xs ys)"
  by (simp add: agree_except_def)

lemma agree_except_refl: "agree_except K a a"
  by (simp add: agree_except_def list_all2_same)

lemma agree_except_dict_set:
  "agree_except K a b \<Longrightarrow> agree_except K (dict_set a k v) (dict_set b k v)"
proof (induction rule: agree_except_induct)
  case Nil
  then show ?case by (simp add: agree_except_def)
next
  case (Cons x xs y ys)
  then show ?case by (cases x; cases y) (auto simp: agree_except_Cons)
qed

lemma agree_except_same:
  "agree_except K (dict_set a K v) (dict_set a K w)"
proof (induction a)
  case Nil
  then show ?case by (simp add: agree_except_def)
next
  case (Cons x a)
  then show ?case by (cases x) (simp add: agree_except_Cons agree_except_refl)
qed

lemma agree_except_absent:
  "agree_except K a b \<Longrightarrow> K \<notin> fst ` set a \<Longrightarrow> a = b"
proof (induction rule: agree_except_induct)
  case Nil
  then show ?case by simp
next
  case (Cons x xs y ys)
  then show ?case by (cases x; cases y) auto
qed

lemma agree_except_overwrite:
  "agree_except K a b \<Longrightarrow> distinct (map fst a) \<Longrightarrow> dict_set a K v = dict_set b K v"
proof (induction rule: agree_except_induct)
  case Nil
  then show ?case by simp
next
  case (Cons x xs y ys)
  obtain k u where x: "x = (k, u)" by (cases x)
  obtain k' u' where y: "y = (k', u')" by (cases y)
  have kk: "k' = k" using Cons.hyps(1) x y by simp
  show ?case
  proof (cases "k = K")
    case True
    have "K \<notin> fst ` set xs" using Cons.prems x True by simp
    with Cons.hyps(3) have "xs = ys" by (rule agree_except_absent)
    then show ?thesis by (simp add: x y kk True)
  next
    case False
    have uu: "u' = u" using Cons.hyps(2) x y False by simp
    have "distinct (map fst xs)" using Cons.prems by simp
    then have "dict_set xs K v = dict_set ys K v" by (rule Cons.IH)
    then show ?thesis by (simp add: x y kk uu False)
  qed
qed

lemma upper_keys_into_agree:
  "agree_except K a b \<Longrightarrow> distinct (map fst a) \<Longrightarrow> K \<in> str_upper ` fst ` set d
     \<Longrightarrow> upper_keys_into d a = upper_keys_into d b"
proof (induction d arbitrary: a b)
  case Nil
  then show ?case by simp
next
  case (Cons kv d)
  obtain k v where kv: "kv = (k, v)" by (cases kv)
  show ?case
  proof (cases "str_upper k = K")
    case True
    then have "dict_set a (str_upper k) v = dict_set b (str_upper k) v"
      using Cons.prems(1,2) agree_except_overwrite [of K a b v] by simp
    then show ?thesis using kv by simp
  next
    case False
    then have "K \<in> str_upper ` fst ` set d" using Cons.prems(3) kv by auto
    moreover have "agree_except K (dict_set a (str_upper k) v) (dict_set b (str_upper k) v)"
      using Cons.prems(1) by (rule agree_except_dict_set)
    moreover have "distinct (map fst (dict_set a (str_upper k) v))"
      using Cons.prems(2) by (rule dict_set_distinct)
    ultimately show ?thesis using Cons.IH kv by simp
  qed
qed

lemma upper_keys_earlier_dropped:
  assumes "str_upper k1 \<in> str_upper ` fst ` set ys"
  shows "upper_keys (xs @ (k1, v) # ys) = upper_keys (xs @ (k1, w) # ys)"
proof -
  let ?a = "upper_keys_into xs []"
  have "agree_except (str_upper k1) (dict_set ?a (str_upper k1) v) (dict_set ?a (str_upper k1) w)"
    by (rule agree_except_same)
  moreover have "distinct (map fst (dict_set ?a (str_upper k1) v))"
    by (simp add: dict_set_distinct upper_keys_into_distinct)
  ultimately have "upper_keys_into ys (dict_set ?a (str_upper k1) v)
      = upper_keys_into ys (dict_set ?a (str_upper k1) w)"
    using assms by (rule upper_keys_into_agree)
  then show ?thesis by (simp add: upper_keys_def upper_keys_into_append)
qed

lemma upper_keys_last_wins:
  assumes "\<forall>k \<in> fst ` set zs. str_upper k \<noteq> str_upper k2"
  shows "map_of (upper_keys (ys @ (k2, v) # zs)) (str_upper k2) = Some v"
  using assms
  by (simp add: upper_keys_def upper_keys_into_append map_of_upper_keys_into_other map_of_dict_set)

section \<open>Structure of the transformer\<close>

lemma build_df_dict_empty_region:
  "(k, []) \<in> set d \<Longrightarrow>
     build_df_dict d acc = Inl (KeyError ''None of [timestamp] are in the columns'')"
proof (induction d arbitrary: acc)
  case Nil
  then show ?case by simp
next
  case (Cons kv d)
  obtain c ps where kv: "kv = (c, ps)" by (cases kv)
  show ?case
  proof (cases "ps = []")
    case True
    then show ?thesis by (simp add: kv price_series_def)
  next
    case False
    then have "(k, []) \<in> set d" using Cons.prems kv by auto
    then show ?thesis using Cons.IH False by (simp add: kv price_series_def)
  qed
qed

lemma build_df_dict_nonempty:
  "\<forall>ps \<in> set (map snd d). ps \<noteq> [] \<Longrightarrow> distinct (map fst acc @ map fst d) \<Longrightarrow>
     build_df_dict d acc
       = Inr (acc @ map (\<lambda>kp. (fst kp, map (\<lambda>p. (timestamp p, price p)) (snd kp))) d)"
proof (induction d arbitrary: acc)
  case Nil
  then show ?case by simp
next
  case (Cons kv d)
  obtain c ps where kv: "kv = (c, ps)" by (cases kv)
  let ?s = "map (\<lambda>p. (timestamp p, price p)) ps"
  have ne: "ps \<noteq> []" using Cons.prems(1) kv by simp
  have fresh: "c \<notin> fst ` set acc" using Cons.prems(2) kv by auto
  then have ds: "dict_set acc c ?s = acc @ [(c, ?s)]" by (rule dict_set_fresh)
  have "distinct (map fst (acc @ [(c, ?s)]) @ map fst d)" using Cons.prems(2) kv by auto
  moreover have "\<forall>ps \<in> set (map snd d). ps \<noteq> []" using Cons.prems(1) by simp
  ultimately have "build_df_dict d (acc @ [(c, ?s)])
      = Inr ((acc @ [(c, ?s)]) @ map (\<lambda>kp. (fst kp, map (\<lambda>p. (timestamp p, price p)) (snd kp))) d)"
    using Cons.IH by blast
  then show ?case using ne ds by (simp add: kv price_series_def)
qed

lemma build_df_dict_keys:
  "build_df_dict d acc = Inr df \<Longrightarrow> fst ` set df = fst ` set acc \<union> fst ` set d"
proof (induction d arbitrary: acc)
  case Nil
  then show ?case by simp
next
  case (Cons kv d)
  obtain c ps where kv: "kv = (c, ps)" by (cases kv)
  from Cons.prems obtain s where s: "price_series ps = Inr s"
    and b: "build_df_dict d (dict_set acc c s) = Inr df"
    by (auto simp: kv split: sum.splits)
  have "fst ` set df = fst ` set (dict_set acc c s) \<union> fst ` set d"
    using b by (rule Cons.IH)
  then show ?case by (simp add: kv dict_set_keys)
qed

lemma homogenize_keys: "homogenize df idx = Inr cols \<Longrightarrow> map fst cols = map fst df"
proof (induction df arbitrary: cols)
  case Nil
  then show ?case by simp
next
  case (Cons cs df)
  obtain c s where cs: "cs = (c, s)" by (cases cs)
  from Cons.prems obtain col cols' where "homogenize df idx = Inr cols'" "cols = (c, col) # cols'"
    by (auto simp: cs split: sum.splits)
  then show ?case using Cons.IH by (simp add: cs)
qed

lemma melt_column_area: "x \<in> set (melt_column ts col) \<Longrightarrow> area x = fst col"
  by (auto simp: melt_column_def)

lemma convert_areas:
  assumes "convert_to_dataframe r = Inr rows" and "x \<in> set rows"
  shows "area x \<in> fst ` set (data r)"
proof -
  from assms(1) obtain df_dict df ts where
    b: "build_df_dict (data r) [] = Inr df_dict" and
    d: "DataFrame_of_dict df_dict = Inr df" and
    m: "melt \<lparr>index = ts, columns = columns df\<rparr> = Inr rows"
    by (auto simp: convert_to_dataframe_def reset_index_def split: sum.splits if_splits)
  from d have "map fst (columns df) = map fst df_dict"
    by (auto simp: DataFrame_of_dict_def Let_def homogenize_keys split: sum.splits)
  then have k: "fst ` set (columns df) = fst ` set df_dict"
    by (metis list.set_map)
  from m have "rows = concat (map (melt_column ts) (columns df))"
    by (auto simp: melt_def split: if_splits)
  with assms(2) obtain col where "col \<in> set (columns df)" "x \<in> set (melt_column ts col)"
    by auto
  then have "area x \<in> fst ` set (columns df)" by (auto simp: melt_column_area)
  with k b show ?thesis using build_df_dict_keys [OF b] by simp
qed

lemma convert_no_regions: "data r = [] \<Longrightarrow> convert_to_dataframe r = Inr []"
  by (simp add: convert_to_dataframe_def DataFrame_of_dict_def union_indexes_def
      to_datetime_def reset_index_def melt_def)

section \<open>Claims about the transformer\<close>

lemma filter_key_distinct:
  "distinct (map fst d) \<Longrightarrow> map_of d K = Some v \<Longrightarrow> filter (\<lambda>kv. fst kv = K) d = [(K, v)]"
proof (induction d)
  case Nil
  then show ?case by simp
next
  case (Cons kv d)
  obtain k u where kv: "kv = (k, u)" by (cases kv)
  show ?case
  proof (cases "k = K")
    case True
    have "K \<notin> fst ` set d" using Cons.prems(1) kv True by simp
    then have "filter (\<lambda>kv. fst kv = K) d = []" by (auto simp: filter_empty_conv)
    then show ?thesis using Cons.prems(2) kv True by simp
  next
    case False
    then show ?thesis using Cons kv by simp
  qed
qed

text \<open>
  C10. If a region of the data mapping maps to an empty PricePoint sequence,
  \<open>convert_to_dataframe\<close> raises: the indexing step fails with a \<open>KeyError\<close> on the frame
  that has no \<open>timestamp\<close> column, whatever the other regions hold.
\<close>

theorem convert_raises_on_empty_region:
  "(k, []) \<in> set (data r) \<Longrightarrow>
     convert_to_dataframe r = Inl (KeyError ''None of [timestamp] are in the columns'')"
  by (simp add: convert_to_dataframe_def build_df_dict_empty_region)

theorem convert_raises_on_empty_region_witness:
  "(''FI'', []) \<in> set (data \<lparr>success = True,
       data = [(''EE'', [\<lparr>timestamp = 1, price = (10::real)\<rparr>]), (''FI'', [])]\<rparr>)
   \<and> convert_to_dataframe \<lparr>success = True,
       data = [(''EE'', [\<lparr>timestamp = 1, price = (10::real)\<rparr>]), (''FI'', [])]\<rparr>
     = Inl (KeyError ''None of [timestamp] are in the columns'')"
  using convert_raises_on_empty_region [of "''FI''" "\<lparr>success = True,
       data = [(''EE'', [\<lparr>timestamp = 1, price = (10::real)\<rparr>]), (''FI'', [])]\<rparr>"]
  by simp

text \<open>
  C8. On a response whose data mapping is empty, \<open>convert_to_dataframe\<close> returns the empty
  row sequence and raises nothing.
\<close>

theorem convert_empty_data: "convert_to_dataframe (r\<lparr>data := []\<rparr>) = Inr []"
  by (simp add: convert_no_regions)

text \<open>
  C7. The example of the specification: the response with success and the one region
  \<open>ee\<close> holding the point (1700000000, 45.2) is transformed into exactly one row, whose
  area is \<open>EE\<close>, whose value is 45.2 and whose time is the instant
  2023-11-14T22:13:20Z.
\<close>

theorem example_row:
  "transform \<lparr>success = True,
      data = [(''ee'', [\<lparr>timestamp = 1700000000, price = (45.2::real)\<rparr>])]\<rparr>
   = Inr (Some [\<lparr>time = Timestamp 1700000000000000000, area = ''EE'', val = Some 45.2\<rparr>])
   \<and> utc_fields (Timestamp 1700000000000000000)
     = \<lparr>year = 2023, month = 11, day = 14, hour = 22, minute = 13, second = 20\<rparr>"
proof -
  have u: "str_upper ''ee'' = ''EE''" by code_simp
  have k: "upper_keys [(''ee'', [\<lparr>timestamp = 1700000000, price = p\<rparr>])]
             = [(''EE'', [\<lparr>timestamp = 1700000000, price = p\<rparr>])]" for p :: real
    by (simp add: upper_keys_def u)
  have c: "convert_to_dataframe \<lparr>success = True,
      data = [(''EE'', [\<lparr>timestamp = 1700000000, price = p\<rparr>])]\<rparr>
       = Inr [\<lparr>time = Timestamp 1700000000000000000, area = ''EE'', val = Some p\<rparr>]"
    for p :: real
    by (simp add: convert_to_dataframe_def price_series_def DataFrame_of_dict_def
        union_indexes_def reindex_def to_datetime_def in_bounds_def reset_index_def
        melt_def melt_column_def)
  have t: "utc_fields (Timestamp 1700000000000000000)
     = \<lparr>year = 2023, month = 11, day = 14, hour = 22, minute = 13, second = 20\<rparr>"
    by code_simp
  show ?thesis by (simp add: transform_def k c t)
qed

text \<open>
  C5. Whatever the letter case of the region keys of the response, every row of the
  transformed table has an area that is fully uppercase: upper-casing it changes
  nothing and it holds no lowercase letter.
\<close>

theorem transform_areas_uppercase:
  assumes "transform r = Inr (Some rows)" and "x \<in> set rows"
  shows "str_upper (area x) = area x \<and> (\<forall>c \<in> set (area x). \<not> is_lower_char c)"
proof -
  from assms(1) have "convert_to_dataframe (r\<lparr>data := upper_keys (data r)\<rparr>) = Inr rows"
    by (auto simp: transform_def Let_def split: if_splits sum.splits)
  then have "area x \<in> fst ` set (data (r\<lparr>data := upper_keys (data r)\<rparr>))"
    using assms(2) by (rule convert_areas)
  then have "area x \<in> str_upper ` fst ` set (data r)"
    by (simp add: upper_keys_keys)
  then obtain k where "area x = str_upper k" by auto
  then show ?thesis by (simp add: str_upper_idem str_upper_no_lower)
qed

theorem transform_areas_uppercase_witness:
  "transform \<lparr>success = True, data = [(''fi'', [\<lparr>timestamp = 0, price = (1.5::real)\<rparr>])]\<rparr>
     = Inr (Some [\<lparr>time = Timestamp 0, area = ''FI'', val = Some 1.5\<rparr>])
   \<and> str_upper ''FI'' = ''FI'' \<and> \<not> is_lower_char CHR ''F'' \<and> \<not> is_lower_char CHR ''I''"
proof -
  have u: "str_upper ''fi'' = ''FI''" by code_simp
  have k: "upper_keys [(''fi'', [\<lparr>timestamp = 0, price = p\<rparr>])]
             = [(''FI'', [\<lparr>timestamp = 0, price = p\<rparr>])]" for p :: real
    by (simp add: upper_keys_def u)
  have c: "convert_to_dataframe \<lparr>success = True,
      data = [(''FI'', [\<lparr>timestamp = 0, price = p\<rparr>])]\<rparr>
       = Inr [\<lparr>time = Timestamp 0, area = ''FI'', val = Some p\<rparr>]" for p :: real
    by (simp add: convert_to_dataframe_def price_series_def DataFrame_of_dict_def
        union_indexes_def reindex_def to_datetime_def in_bounds_def reset_index_def
        melt_def melt_column_def)
  have t: "transform \<lparr>success = True, data = [(''fi'', [\<lparr>timestamp = 0, price = (1.5::real)\<rparr>])]\<rparr>
     = Inr (Some [\<lparr>time = Timestamp 0, area = ''FI'', val = Some 1.5\<rparr>])"
    by (simp add: transform_def k c)
  from transform_areas_uppercase [OF t, of "\<lparr>time = Timestamp 0, area = ''FI'', val = Some 1.5\<rparr>"]
  show ?thesis using t by simp
qed

section \<open>Properties of the File Exporter\<close>

lemma written_files_append: "written_files (a @ b) = written_files a @ written_files b"
  by (induction a rule: written_files.induct) auto

lemma written_files_write_file:
  "written_files (fst (write_file io fmt label df p tr))
     = written_files tr @ (if io fmt p df = None then [p] else [])"
  by (auto simp: write_file_def written_files_append split: option.splits)

lemma save_to_file_unsupported:
  "\<not> supported_extension p \<Longrightarrow>
     save_to_file io df p tr
       = (tr @ [Log WARNING (''Unsupported file extension: '' @ str_lower (snd (splitext p))
                              @ ''. Skipping file: '' @ p)], None)"
  by (simp add: save_to_file_def supported_extension_def Let_def)

lemma save_to_file_written:
  "set (written_files (fst (save_to_file io df p tr)))
     \<subseteq> set (written_files tr) \<union> (if supported_extension p then {p} else {})"
  by (auto simp: save_to_file_def supported_extension_def Let_def written_files_write_file
      written_files_append split: if_splits)

lemma save_to_file_ok:
  "\<forall>fmt q. io fmt q df = None \<Longrightarrow>
     written_files (fst (save_to_file io df p tr))
       = written_files tr @ (if supported_extension p then [p] else [])
     \<and> snd (save_to_file io df p tr) = None"
  by (auto simp: save_to_file_def supported_extension_def Let_def write_file_def
      written_files_append)

lemma save_all_written:
  "set (written_files (fst (save_all io df paths tr)))
     \<subseteq> set (written_files tr) \<union> {p \<in> set paths. supported_extension p}"
proof (induction paths arbitrary: tr)
  case Nil
  then show ?case by simp
next
  case (Cons p paths)
  obtain tr' r where s: "save_to_file io df p tr = (tr', r)" by (cases "save_to_file io df p tr")
  have w: "set (written_files tr') \<subseteq> set (written_files tr) \<union> (if supported_extension p then {p} else {})"
    using save_to_file_written [of io df p tr] s by simp
  show ?case
  proof (cases r)
    case None
    have "set (written_files (fst (save_all io df paths tr')))
            \<subseteq> set (written_files tr') \<union> {p \<in> set paths. supported_extension p}"
      by (rule Cons.IH)
    with w show ?thesis using s None by (auto split: if_splits)
  next
    case (Some e)
    with w show ?thesis using s by (auto split: if_splits)
  qed
qed

lemma save_all_ok:
  "\<forall>fmt q. io fmt q df = None \<Longrightarrow>
     written_files (fst (save_all io df paths tr))
       = written_files tr @ filter supported_extension paths
     \<and> snd (save_all io df paths tr) = None"
proof (induction paths arbitrary: tr)
  case Nil
  then show ?case by simp
next
  case (Cons p paths)
  obtain tr' r where s: "save_to_file io df p tr = (tr', r)" by (cases "save_to_file io df p tr")
  have "written_files (fst (save_to_file io df p tr))
          = written_files tr @ (if supported_extension p then [p] else [])
        \<and> snd (save_to_file io df p tr) = None"
    using Cons.prems by (rule save_to_file_ok)
  then have ok: "written_files tr' = written_files tr @ (if supported_extension p then [p] else [])"
    and r: "r = None"
    using s by simp_all
  have "written_files (fst (save_all io df paths tr'))
          = written_files tr' @ filter supported_extension paths
        \<and> snd (save_all io df paths tr') = None"
    using Cons.prems by (rule Cons.IH)
  then show ?case using s r ok by simp
qed

lemma save_to_file_csv:
  "str_lower (snd (splitext p)) = ''.csv'' \<Longrightarrow>
     save_to_file io df p tr = write_file io Csv ''CSV'' df p tr"
  by (simp add: save_to_file_def Let_def)

lemma supported_prices_csv: "supported_extension ''prices.csv''"
  by code_simp

lemma unsupported_notes_txt: "\<not> supported_extension ''notes.txt''"
  by code_simp

text \<open>
  C6. Applied to each path of a list, \<open>save_to_file\<close> writes a file only for paths whose
  extension (compared without regard to case) is \<open>.parquet\<close>, \<open>.csv\<close> or \<open>.xlsx\<close>;
  a path with another extension is skipped with a warning and the loop goes on with the
  remaining paths; when no write fails, exactly the supported paths are written, so the
  two filenames \<open>prices.csv\<close> and \<open>notes.txt\<close> give exactly one file.
\<close>

theorem save_all_skips_unsupported:
  "set (written_files (fst (save_all io df paths tr)))
     \<subseteq> set (written_files tr) \<union> {p \<in> set paths. supported_extension p}
   \<and> (\<not> supported_extension p \<longrightarrow>
        save_all io df (p # rest) tr
          = save_all io df rest
              (tr @ [Log WARNING (''Unsupported file extension: '' @ str_lower (snd (splitext p))
                                   @ ''. Skipping file: '' @ p)]))
   \<and> ((\<forall>fmt q. io fmt q df = None) \<longrightarrow>
        written_files (fst (save_all io df paths [])) = filter supported_extension paths
        \<and> snd (save_all io df paths []) = None)
   \<and> (io Csv ''prices.csv'' df = None \<longrightarrow>
        written_files (fst (save_all io df [''prices.csv'', ''notes.txt''] [])) = [''prices.csv'']
        \<and> snd (save_all io df [''prices.csv'', ''notes.txt''] []) = None)"
proof -
  have a: "set (written_files (fst (save_all io df paths tr)))
     \<subseteq> set (written_files tr) \<union> {p \<in> set paths. supported_extension p}"
    by (rule save_all_written)
  have b: "\<not> supported_extension p \<longrightarrow>
        save_all io df (p # rest) tr
          = save_all io df rest
              (tr @ [Log WARNING (''Unsupported file extension: '' @ str_lower (snd (splitext p))
                                   @ ''. Skipping file: '' @ p)])"
    by (simp add: save_to_file_unsupported)
  have c: "(\<forall>fmt q. io fmt q df = None) \<longrightarrow>
        written_files (fst (save_all io df paths [])) = filter supported_extension paths
        \<and> snd (save_all io df paths []) = None"
    using save_all_ok [of io df paths "[]"] by simp
  have e1: "str_lower (snd (splitext ''prices.csv'')) = ''.csv''" by code_simp
  have e2: "str_lower (snd (splitext ''notes.txt'')) = ''.txt''" by code_simp
  have d: "io Csv ''prices.csv'' df = None \<longrightarrow>
        written_files (fst (save_all io df [''prices.csv'', ''notes.txt''] [])) = [''prices.csv'']
        \<and> snd (save_all io df [''prices.csv'', ''notes.txt''] []) = None"
  proof
    assume ok: "io Csv ''prices.csv'' df = None"
    let ?tr = "[FileWritten Csv ''prices.csv'',
                Log INFO (''Data saved to '' @ ''CSV'' @ '' file: '' @ ''prices.csv'')]"
    have s1: "save_to_file io df ''prices.csv'' [] = (?tr, None)"
      using ok by (simp only: save_to_file_csv [OF e1] write_file_def option.case append_Nil)
    have s2: "save_to_file io df ''notes.txt'' ?tr
        = (?tr @ [Log WARNING (''Unsupported file extension: ''
                     @ str_lower (snd (splitext ''notes.txt''))
                     @ ''. Skipping file: '' @ ''notes.txt'')], None)"
      using unsupported_notes_txt by (rule save_to_file_unsupported)
    have "save_all io df [''prices.csv'', ''notes.txt''] []
        = (?tr @ [Log WARNING (''Unsupported file extension: ''
                     @ str_lower (snd (splitext ''notes.txt''))
                     @ ''. Skipping file: '' @ ''notes.txt'')], None)"
      by (simp only: save_all.simps s1 s2 prod.case option.case)
    then show "written_files (fst (save_all io df [''prices.csv'', ''notes.txt''] [])) = [''prices.csv'']
        \<and> snd (save_all io df [''prices.csv'', ''notes.txt''] []) = None"
      by (simp add: written_files_append)
  qed
  from a b c d show ?thesis by blast
qed

theorem save_all_skips_unsupported_witness:
  "written_files (fst (save_all (\<lambda>fmt q df. None) ([] :: real PriceRow list)
      [''prices.csv'', ''notes.txt''] [])) = [''prices.csv'']
   \<and> save_all (\<lambda>fmt q df. None) ([] :: real PriceRow list) [''notes.txt'', ''prices.csv''] []
     = save_all (\<lambda>fmt q df. None) ([] :: real PriceRow list) [''prices.csv'']
         [Log WARNING ''Unsupported file extension: .txt. Skipping file: notes.txt'']"
proof -
  have e2: "str_lower (snd (splitext ''notes.txt'')) = ''.txt''" by code_simp
  show ?thesis
    using save_all_skips_unsupported [of "\<lambda>fmt q df. None" "[] :: real PriceRow list"
        "[''prices.csv'', ''notes.txt'']" "[]" "''notes.txt''" "[''prices.csv'']"]
      unsupported_notes_txt
    by (simp del: save_all.simps add: e2 supported_prices_csv)
qed

section \<open>Properties of the Time-Series DB Writer\<close>

lemma lower_names:
  "str_lower ''INFLUXDB_URL'' = ''influxdb_url''"
  "str_lower ''INFLUXDB_TOKEN'' = ''influxdb_token''"
  "str_lower ''INFLUXDB_ORG'' = ''influxdb_org''"
  "str_lower ''INFLUXDB_BUCKET'' = ''influxdb_bucket''"
  by code_simp+

lemma option_names:
  "replace_char CHR ''_'' CHR ''-'' ''influxdb_url'' = ''influxdb-url''"
  "replace_char CHR ''_'' CHR ''-'' ''influxdb_token'' = ''influxdb-token''"
  "replace_char CHR ''_'' CHR ''-'' ''influxdb_org'' = ''influxdb-org''"
  "replace_char CHR ''_'' CHR ''-'' ''influxdb_bucket'' = ''influxdb-bucket''"
  by code_simp+

text \<open>The message of the error raised for a missing parameter.\<close>

lemma check_mandatory_vars:
  "check_mandatory (vars_of args)
      [''INFLUXDB_URL'', ''INFLUXDB_TOKEN'', ''INFLUXDB_ORG'', ''INFLUXDB_BUCKET'']
   = (if influxdb_url args = None
        then Some (RuntimeError
          ''Parameter missing: add --influxdb-url or INFLUXDB_URL environment variable'')
      else if influxdb_token args = None
        then Some (RuntimeError
          ''Parameter missing: add --influxdb-token or INFLUXDB_TOKEN environment variable'')
      else if influxdb_org args = None
        then Some (RuntimeError
          ''Parameter missing: add --influxdb-org or INFLUXDB_ORG environment variable'')
      else if influxdb_bucket args = None
        then Some (RuntimeError
          ''Parameter missing: add --influxdb-bucket or INFLUXDB_BUCKET environment variable'')
      else None)"
  by (auto simp: vars_of_def lower_names option_names split: option.splits)

lemma parse_known_args_absent:
  "absent pe ''--influxdb-url'' ''INFLUXDB_URL'' \<Longrightarrow> influxdb_url (parse_known_args pe) = None"
  "absent pe ''--influxdb-token'' ''INFLUXDB_TOKEN'' \<Longrightarrow> influxdb_token (parse_known_args pe) = None"
  "absent pe ''--influxdb-org'' ''INFLUXDB_ORG'' \<Longrightarrow> influxdb_org (parse_known_args pe) = None"
  "absent pe ''--influxdb-bucket'' ''INFLUXDB_BUCKET'' \<Longrightarrow> influxdb_bucket (parse_known_args pe) = None"
  by (simp_all add: absent_def parse_known_args_def option_or_default_def)

lemma get_influxdb_args_unfold:
  "get_influxdb_args pe tr =
     (case (if influxdb_url (parse_known_args pe) = None
        then Some (RuntimeError
          ''Parameter missing: add --influxdb-url or INFLUXDB_URL environment variable'')
      else if influxdb_token (parse_known_args pe) = None
        then Some (RuntimeError
          ''Parameter missing: add --influxdb-token or INFLUXDB_TOKEN environment variable'')
      else if influxdb_org (parse_known_args pe) = None
        then Some (RuntimeError
          ''Parameter missing: add --influxdb-org or INFLUXDB_ORG environment variable'')
      else if influxdb_bucket (parse_known_args pe) = None
        then Some (RuntimeError
          ''Parameter missing: add --influxdb-bucket or INFLUXDB_BUCKET environment variable'')
      else None) of
        Some e \<Rightarrow> (tr, Inl e)
      | None \<Rightarrow>
          (tr @ [Log INFO (''Got InfluxDB parameters url='' @ py_str (influxdb_url (parse_known_args pe))
                   @ '', token=*****, org='' @ py_str (influxdb_org (parse_known_args pe))
                   @ '', bucket='' @ py_str (influxdb_bucket (parse_known_args pe)))],
           Inr (influxdb_url (parse_known_args pe), influxdb_token (parse_known_args pe),
                influxdb_org (parse_known_args pe), influxdb_bucket (parse_known_args pe))))"
  unfolding get_influxdb_args_def Let_def check_mandatory_vars by (rule refl)

lemma get_influxdb_args_missing:
  assumes "influxdb_url (parse_known_args pe) = None \<or> influxdb_token (parse_known_args pe) = None
         \<or> influxdb_org (parse_known_args pe) = None \<or> influxdb_bucket (parse_known_args pe) = None"
  shows "\<exists>msg. \<forall>tr. get_influxdb_args pe tr = (tr, Inl (RuntimeError msg))"
proof -
  consider (u) "influxdb_url (parse_known_args pe) = None"
    | (t) "influxdb_url (parse_known_args pe) \<noteq> None" "influxdb_token (parse_known_args pe) = None"
    | (g) "influxdb_url (parse_known_args pe) \<noteq> None" "influxdb_token (parse_known_args pe) \<noteq> None"
          "influxdb_org (parse_known_args pe) = None"
    | (b) "influxdb_url (parse_known_args pe) \<noteq> None" "influxdb_token (parse_known_args pe) \<noteq> None"
          "influxdb_org (parse_known_args pe) \<noteq> None" "influxdb_bucket (parse_known_args pe) = None"
    using assms by auto
  then show ?thesis
  proof cases
    case u
    then show ?thesis unfolding get_influxdb_args_unfold by simp
  next
    case t
    then show ?thesis unfolding get_influxdb_args_unfold by simp
  next
    case g
    then show ?thesis unfolding get_influxdb_args_unfold by simp
  next
    case b
    then show ?thesis unfolding get_influxdb_args_unfold by simp
  qed
qed

text \<open>
  C2 (as the code has it). When one of the four connection parameters is absent from
  both the command line and the environment, \<open>get_influxdb_args\<close> raises
  \<open>RuntimeError\<close> before any network call; \<open>write_dataframe_to_influxdb\<close> catches it,
  logs it at error level and returns \<open>False\<close>, without a network call; and the process
  is not terminated by it: a run of \<open>main\<close> whose fetch, transform and file export
  succeed ends without an exception, its trace being that of the file export followed
  by the logged error.
\<close>

theorem missing_parameter_caught:
  assumes "absent pe ''--influxdb-url'' ''INFLUXDB_URL''
         \<or> absent pe ''--influxdb-token'' ''INFLUXDB_TOKEN''
         \<or> absent pe ''--influxdb-org'' ''INFLUXDB_ORG''
         \<or> absent pe ''--influxdb-bucket'' ''INFLUXDB_BUCKET''"
  shows "\<exists>msg. get_influxdb_args pe tr = (tr, Inl (RuntimeError msg))
       \<and> write_dataframe_to_influxdb pe db df measurement_name tag_columns field_columns tr
           = (tr @ [Log ERROR (''Error writing DataFrame to InfluxDB: '' @ msg)], Inr False)
       \<and> (\<forall>(env :: 'q run) r rows tr'.
             proc env = pe \<longrightarrow> fetched env = Inr r \<longrightarrow> transform r = Inr (Some rows) \<longrightarrow>
             save_all (files env) rows
               (case output_filename env of None \<Rightarrow> [] | Some fs \<Rightarrow> fs) [LogFrame INFO]
               = (tr', None) \<longrightarrow>
             main env
               = (tr' @ [Log ERROR (''Error writing DataFrame to InfluxDB: '' @ msg)], None))"
proof -
  from assms have "influxdb_url (parse_known_args pe) = None
         \<or> influxdb_token (parse_known_args pe) = None
         \<or> influxdb_org (parse_known_args pe) = None
         \<or> influxdb_bucket (parse_known_args pe) = None"
    using parse_known_args_absent(1) [of pe] parse_known_args_absent(2) [of pe]
      parse_known_args_absent(3) [of pe] parse_known_args_absent(4) [of pe]
    by auto
  then obtain msg where g: "\<And>tr. get_influxdb_args pe tr = (tr, Inl (RuntimeError msg))"
    using get_influxdb_args_missing by blast
  have w: "write_dataframe_to_influxdb pe db df m tg fl tr
           = (tr @ [Log ERROR (''Error writing DataFrame to InfluxDB: '' @ msg)], Inr False)"
    for db :: "'z db_io" and df m tg fl tr
    by (simp add: write_dataframe_to_influxdb_def g handle_write_error_def)
  have r: "main env = (tr' @ [Log ERROR (''Error writing DataFrame to InfluxDB: '' @ msg)], None)"
    if "proc env = pe" "fetched env = Inr r" "transform r = Inr (Some rows)"
      "save_all (files env) rows
         (case output_filename env of None \<Rightarrow> [] | Some fs \<Rightarrow> fs) [LogFrame INFO] = (tr', None)"
    for env :: "'q run" and r rows tr'
    using that by (simp add: main_def w)
  from g w r show ?thesis by blast
qed

theorem missing_parameter_caught_witness:
  "absent \<lparr>flag = (\<lambda>opt. None), getenv = (\<lambda>var. if var = ''INFLUXDB_TOKEN'' then None else Some ''x'')\<rparr>
      ''--influxdb-token'' ''INFLUXDB_TOKEN''
   \<and> (\<exists>msg. write_dataframe_to_influxdb
        \<lparr>flag = (\<lambda>opt. None), getenv = (\<lambda>var. if var = ''INFLUXDB_TOKEN'' then None else Some ''x'')\<rparr>
        (\<lambda>c. None) ([] :: real PriceRow list) ''price'' (Some [''area'']) (Some [''value'']) []
      = ([Log ERROR (''Error writing DataFrame to InfluxDB: '' @ msg)], Inr False))
   \<and> snd (main \<lparr>proc = \<lparr>flag = (\<lambda>opt. None),
                           getenv = (\<lambda>var. if var = ''INFLUXDB_TOKEN'' then None else Some ''x'')\<rparr>,
                 fetched = Inr \<lparr>success = True,
                                data = [(''fi'', [\<lparr>timestamp = 0, price = (1.5::real)\<rparr>])]\<rparr>,
                 output_filename = Some [''prices.csv''], influxdb_measurement = ''price'',
                 files = (\<lambda>fmt q df. None), db_answer = (\<lambda>c. None)\<rparr>) = None
   \<and> written_files (fst (main \<lparr>proc = \<lparr>flag = (\<lambda>opt. None),
                           getenv = (\<lambda>var. if var = ''INFLUXDB_TOKEN'' then None else Some ''x'')\<rparr>,
                 fetched = Inr \<lparr>success = True,
                                data = [(''fi'', [\<lparr>timestamp = 0, price = (1.5::real)\<rparr>])]\<rparr>,
                 output_filename = Some [''prices.csv''], influxdb_measurement = ''price'',
                 files = (\<lambda>fmt q df. None), db_answer = (\<lambda>c. None)\<rparr>)) = [''prices.csv'']"
proof -
  let ?pe = "\<lparr>flag = (\<lambda>opt. None),
              getenv = (\<lambda>var. if var = ''INFLUXDB_TOKEN'' then None else Some ''x'')\<rparr>"
  let ?r = "\<lparr>success = True, data = [(''fi'', [\<lparr>timestamp = 0, price = (1.5::real)\<rparr>])]\<rparr>"
  let ?rows = "[\<lparr>time = Timestamp 0, area = ''FI'', val = Some (1.5::real)\<rparr>]"
  let ?env = "\<lparr>proc = ?pe, fetched = Inr ?r,
                 output_filename = Some [''prices.csv''], influxdb_measurement = ''price'',
                 files = (\<lambda>fmt q df. None), db_answer = (\<lambda>c. None)\<rparr>"
  have a: "absent ?pe ''--influxdb-token'' ''INFLUXDB_TOKEN''"
    by (simp add: absent_def)
  then have d: "absent ?pe ''--influxdb-url'' ''INFLUXDB_URL''
         \<or> absent ?pe ''--influxdb-token'' ''INFLUXDB_TOKEN''
         \<or> absent ?pe ''--influxdb-org'' ''INFLUXDB_ORG''
         \<or> absent ?pe ''--influxdb-bucket'' ''INFLUXDB_BUCKET''"
    by blast
  have u: "str_upper ''fi'' = ''FI''" by code_simp
  have k: "upper_keys [(''fi'', [\<lparr>timestamp = 0, price = p\<rparr>])]
             = [(''FI'', [\<lparr>timestamp = 0, price = p\<rparr>])]" for p :: real
    by (simp add: upper_keys_def u)
  have c: "convert_to_dataframe \<lparr>success = True,
      data = [(''FI'', [\<lparr>timestamp = 0, price = p\<rparr>])]\<rparr>
       = Inr [\<lparr>time = Timestamp 0, area = ''FI'', val = Some p\<rparr>]" for p :: real
    by (simp add: convert_to_dataframe_def price_series_def DataFrame_of_dict_def
        union_indexes_def reindex_def to_datetime_def in_bounds_def reset_index_def
        melt_def melt_column_def)
  have t: "transform ?r = Inr (Some ?rows)"
    by (simp add: transform_def k c)
  define tr' where "tr' = fst (save_all (\<lambda>fmt q df. None) ?rows [''prices.csv''] [LogFrame INFO])"
  have ok: "written_files tr' = written_files [LogFrame INFO] @ filter supported_extension [''prices.csv'']
      \<and> snd (save_all (\<lambda>fmt q df. None) ?rows [''prices.csv''] [LogFrame INFO]) = None"
    unfolding tr'_def by (rule save_all_ok) simp
  then have s: "save_all (files ?env) ?rows
      (case output_filename ?env of None \<Rightarrow> [] | Some fs \<Rightarrow> fs) [LogFrame INFO] = (tr', None)"
    by (simp add: tr'_def prod_eq_iff del: save_all.simps)
  have wf: "written_files tr' = [''prices.csv'']"
    using ok by (simp add: supported_prices_csv)
  from missing_parameter_caught [OF d, of "[]" "\<lambda>c. None" "[] :: real PriceRow list"
      "''price''" "Some [''area'']" "Some [''value'']"]
  obtain msg where
    w: "write_dataframe_to_influxdb ?pe (\<lambda>c. None) ([] :: real PriceRow list)
      ''price'' (Some [''area'']) (Some [''value'']) []
      = ([] @ [Log ERROR (''Error writing DataFrame to InfluxDB: '' @ msg)], Inr False)"
    and m: "\<forall>(env :: real run) r rows tr'.
             proc env = ?pe \<longrightarrow> fetched env = Inr r \<longrightarrow> transform r = Inr (Some rows) \<longrightarrow>
             save_all (files env) rows
               (case output_filename env of None \<Rightarrow> [] | Some fs \<Rightarrow> fs) [LogFrame INFO]
               = (tr', None) \<longrightarrow>
             main env
               = (tr' @ [Log ERROR (''Error writing DataFrame to InfluxDB: '' @ msg)], None)"
    by blast
  have p: "proc ?env = ?pe" and f: "fetched ?env = Inr ?r" by simp_all
  from m p f t s have "main ?env
      = (tr' @ [Log ERROR (''Error writing DataFrame to InfluxDB: '' @ msg)], None)"
    by blast
  then have r1: "snd (main ?env) = None" and r2: "written_files (fst (main ?env)) = [''prices.csv'']"
    using wf by (simp_all add: written_files_append)
  from w have "\<exists>msg. write_dataframe_to_influxdb ?pe (\<lambda>c. None) ([] :: real PriceRow list)
      ''price'' (Some [''area'']) (Some [''value'']) []
      = ([Log ERROR (''Error writing DataFrame to InfluxDB: '' @ msg)], Inr False)"
    by auto
  with a r1 r2 show ?thesis by blast
qed

text \<open>
  The claim C2 as the specification states it fails: with no parameter given at all, the
  write step returns \<open>False\<close> instead of raising, and a run of \<open>main\<close> ends without an
  exception, that is with exit status 0.
\<close>

theorem missing_parameter_not_fatal:
  "snd (write_dataframe_to_influxdb \<lparr>flag = (\<lambda>opt. None), getenv = (\<lambda>var. None)\<rparr>
          (\<lambda>c. None) ([] :: real PriceRow list) ''price'' (Some [''area'']) (Some [''value'']) [])
     = Inr False
   \<and> snd (main \<lparr>proc = \<lparr>flag = (\<lambda>opt. None), getenv = (\<lambda>var. None)\<rparr>,
                 fetched = Inr \<lparr>success = True, data = ([] :: (string \<times> real PricePoint list) list)\<rparr>,
                 output_filename = None, influxdb_measurement = ''price'',
                 files = (\<lambda>fmt q df. None), db_answer = (\<lambda>c. None)\<rparr>)
     = None"
proof -
  let ?pe = "\<lparr>flag = (\<lambda>opt. None), getenv = (\<lambda>var. None)\<rparr>"
  have g: "get_influxdb_args ?pe tr = (tr, Inl (RuntimeError
      ''Parameter missing: add --influxdb-url or INFLUXDB_URL environment variable''))" for tr
    unfolding get_influxdb_args_unfold
    by (simp add: parse_known_args_def option_or_default_def)
  have w: "snd (write_dataframe_to_influxdb ?pe db df m tg fl tr) = Inr False"
    for db :: "real db_io" and df m tg fl tr
    by (simp add: write_dataframe_to_influxdb_def g handle_write_error_def)
  have t: "transform \<lparr>success = True, data = ([] :: (string \<times> real PricePoint list) list)\<rparr>
      = Inr (Some [])"
    by (simp add: transform_def upper_keys_def convert_no_regions)
  have "snd (main \<lparr>proc = ?pe,
                 fetched = Inr \<lparr>success = True, data = ([] :: (string \<times> real PricePoint list) list)\<rparr>,
                 output_filename = None, influxdb_measurement = ''price'',
                 files = (\<lambda>fmt q df. None), db_answer = (\<lambda>c. None)\<rparr>) = None"
    by (simp add: main_def t write_dataframe_to_influxdb_def g handle_write_error_def)
  with w show ?thesis by blast
qed

text \<open>
  C4. When the parameters are present and the database write raises an exception, the
  write step returns \<open>False\<close> without raising for an \<open>ApiException\<close> (status 401 or any
  other), a \<open>ValueError\<close>, a \<open>TypeError\<close> or a \<open>RuntimeError\<close>; an exception of any
  other class propagates to the caller.
\<close>

theorem write_errors_caught:
  assumes "get_influxdb_args pe tr = (tr1, Inr (url, token, org, bucket))"
    and "db \<lparr>wc_url = url, wc_token = token, wc_org = org, wc_bucket = bucket,
             wc_record = df, wc_measurement = measurement_name,
             wc_tag_columns = tag_columns, wc_field_columns = field_columns\<rparr> = Some e"
  shows "snd (write_dataframe_to_influxdb pe db df measurement_name tag_columns field_columns tr)
     = (case e of
          ApiException status reason \<Rightarrow> Inr False
        | ValueError msg \<Rightarrow> Inr False
        | TypeError msg \<Rightarrow> Inr False
        | RuntimeError msg \<Rightarrow> Inr False
        | KeyError msg \<Rightarrow> Inl e
        | OtherException msg \<Rightarrow> Inl e)"
  using assms
  by (cases e) (simp_all add: write_dataframe_to_influxdb_def handle_write_error_def Let_def)

theorem write_errors_caught_witness:
  "snd (write_dataframe_to_influxdb \<lparr>flag = (\<lambda>opt. None), getenv = (\<lambda>var. Some ''x'')\<rparr>
          (\<lambda>c. Some (ApiException 401 ''Unauthorized'')) ([] :: real PriceRow list) ''price''
          (Some [''area'']) (Some [''value'']) [])
     = Inr False
   \<and> snd (write_dataframe_to_influxdb \<lparr>flag = (\<lambda>opt. None), getenv = (\<lambda>var. Some ''x'')\<rparr>
          (\<lambda>c. Some (OtherException ''ReadTimeoutError'')) ([] :: real PriceRow list) ''price''
          (Some [''area'']) (Some [''value'']) [])
     = Inl (OtherException ''ReadTimeoutError'')"
proof -
  let ?pe = "\<lparr>flag = (\<lambda>opt. None), getenv = (\<lambda>var. Some ''x'')\<rparr>"
  have g: "get_influxdb_args ?pe []
      = ([Log INFO (''Got InfluxDB parameters url='' @ py_str (Some ''x'')
                      @ '', token=*****, org='' @ py_str (Some ''x'')
                      @ '', bucket='' @ py_str (Some ''x''))],
         Inr (Some ''x'', Some ''x'', Some ''x'', Some ''x''))"
    unfolding get_influxdb_args_unfold
    by (simp add: parse_known_args_def option_or_default_def)
  have a: "snd (write_dataframe_to_influxdb ?pe (\<lambda>c. Some (ApiException 401 ''Unauthorized''))
          ([] :: real PriceRow list) ''price'' (Some [''area'']) (Some [''value'']) []) = Inr False"
    using write_errors_caught [OF g, of "\<lambda>c. Some (ApiException 401 ''Unauthorized'')"
        "[] :: real PriceRow list" "''price''" "Some [''area'']" "Some [''value'']"
        "ApiException 401 ''Unauthorized''"]
    by simp
  have b: "snd (write_dataframe_to_influxdb ?pe (\<lambda>c. Some (OtherException ''ReadTimeoutError''))
          ([] :: real PriceRow list) ''price'' (Some [''area'']) (Some [''value'']) [])
       = Inl (OtherException ''ReadTimeoutError'')"
    using write_errors_caught [OF g, of "\<lambda>c. Some (OtherException ''ReadTimeoutError'')"
        "[] :: real PriceRow list" "''price''" "Some [''area'']" "Some [''value'']"
        "OtherException ''ReadTimeoutError''"]
    by simp
  from a b show ?thesis by blast
qed

section \<open>Shape of the transformed table\<close>

lemma map_of_on_keys:
  "distinct (map fst s) \<Longrightarrow> map (map_of s) (map fst s) = map (\<lambda>tv. Some (snd tv)) s"
  by (simp add: map_of_eq_Some_iff)

lemma reindex_distinct:
  "distinct (map fst s) \<Longrightarrow> reindex s idx = Inr (map (map_of s) idx)"
  using map_of_on_keys [of s] by (auto simp: reindex_def)

lemma homogenize_distinct:
  "\<forall>cs \<in> set df. distinct (map fst (snd cs)) \<Longrightarrow>
     homogenize df idx = Inr (map (\<lambda>cs. (fst cs, map (map_of (snd cs)) idx)) df)"
proof (induction df)
  case Nil
  then show ?case by simp
next
  case (Cons cs df)
  obtain c s where cs: "cs = (c, s)" by (cases cs)
  have "distinct (map fst s)" using Cons.prems cs by simp
  then have r: "reindex s idx = Inr (map (map_of s) idx)" by (rule reindex_distinct)
  have "homogenize df idx = Inr (map (\<lambda>cs. (fst cs, map (map_of (snd cs)) idx)) df)"
    using Cons.prems by (simp add: Cons.IH)
  then show ?case by (simp add: cs r)
qed

lemma all_equal_union: "list_all (\<lambda>j. j = i) others \<Longrightarrow> \<Union> (set ` set others) \<subseteq> set i"
  by (induction others) auto

lemma union_indexes_set: "set (union_indexes idxs) = \<Union> (set ` set idxs)"
proof (cases idxs)
  case Nil
  then show ?thesis by (simp add: union_indexes_def)
next
  case (Cons i others)
  show ?thesis
  proof (cases "list_all (\<lambda>j. j = i) others")
    case True
    then have "\<Union> (set ` set others) \<subseteq> set i" by (rule all_equal_union)
    then show ?thesis using True Cons by (auto simp: union_indexes_def)
  next
    case False
    then show ?thesis using Cons by (simp add: union_indexes_def)
  qed
qed

lemma union_indexes_distinct:
  "\<forall>i \<in> set idxs. distinct i \<Longrightarrow> distinct (union_indexes idxs)"
  by (cases idxs) (auto simp: union_indexes_def)

lemma melt_column_map:
  "melt_column (map f idx) (k, map g idx) = map (\<lambda>t. \<lparr>time = f t, area = k, val = g t\<rparr>) idx"
  by (simp add: melt_column_def zip_map_map zip_same_conv_map)

lemma to_datetime_in_bounds:
  "\<forall>t \<in> set idx. in_bounds t \<Longrightarrow>
     to_datetime idx = Inr (map (\<lambda>t. Timestamp (t * 1000000000)) idx)"
  by (simp add: to_datetime_def list_all_iff)

text \<open>
  The table built from well-formed data: every region contributes one row per label of
  the wide index, in index order.
\<close>

lemma convert_well_formed:
  assumes keys: "distinct (map fst (data r))"
    and nonempty: "\<forall>kp \<in> set (data r). snd kp \<noteq> []"
    and dist: "\<forall>kp \<in> set (data r). distinct (map timestamp (snd kp))"
    and bounds: "\<forall>kp \<in> set (data r). \<forall>p \<in> set (snd kp). in_bounds (timestamp p)"
    and names: "''time'' \<notin> fst ` set (data r)" "''value'' \<notin> fst ` set (data r)"
  shows "\<exists>idx. distinct idx \<and> set idx = timestamps_of (data r) \<and>
     convert_to_dataframe r
       = Inr (concat (map (\<lambda>kp. map (\<lambda>t. \<lparr>time = Timestamp (t * 1000000000), area = fst kp,
                val = map_of (map (\<lambda>p. (timestamp p, price p)) (snd kp)) t\<rparr>) idx) (data r)))"
proof -
  define df where "df = map (\<lambda>kp :: string \<times> 'a PricePoint list.
      (fst kp, map (\<lambda>p. (timestamp p, price p)) (snd kp))) (data r)"
  define idx where "idx = union_indexes (map (\<lambda>cs. map fst (snd cs)) df)"
  define cols where "cols = map (\<lambda>cs. (fst cs, map (map_of (snd cs)) idx)) df"
  define ts where "ts = map (\<lambda>t. Timestamp (t * 1000000000)) idx"
  have b: "build_df_dict (data r) [] = Inr df"
    using build_df_dict_nonempty [of "data r" "[]"] keys nonempty by (simp add: df_def)
  have d: "\<forall>cs \<in> set df. distinct (map fst (snd cs))"
    using dist by (simp add: df_def comp_def)
  then have h: "homogenize df idx = Inr cols"
    unfolding cols_def by (rule homogenize_distinct)
  have D: "DataFrame_of_dict df = Inr \<lparr>index = idx, columns = cols\<rparr>"
    unfolding DataFrame_of_dict_def Let_def idx_def [symmetric] h by simp
  have di: "distinct idx"
    unfolding idx_def by (rule union_indexes_distinct) (use d in simp)
  have si: "set idx = timestamps_of (data r)"
    by (simp add: idx_def df_def union_indexes_set timestamps_of_def comp_def image_image)
  have "\<forall>t \<in> set idx. in_bounds t"
    using bounds unfolding si timestamps_of_def by auto
  then have t: "to_datetime idx = Inr ts"
    unfolding ts_def by (rule to_datetime_in_bounds)
  have ck: "map fst cols = map fst (data r)"
    by (simp add: cols_def df_def comp_def)
  then have cs: "fst ` set cols = fst ` set (data r)"
    by (metis list.set_map)
  have rs: "reset_index \<lparr>index = ts, columns = cols\<rparr> = Inr \<lparr>index = ts, columns = cols\<rparr>"
    using names(1) cs by (simp add: reset_index_def)
  have m: "melt \<lparr>index = ts, columns = cols\<rparr> = Inr (concat (map (melt_column ts) cols))"
    using names(2) cs by (simp add: melt_def)
  have cc: "map (melt_column ts) cols
      = map (\<lambda>kp. map (\<lambda>t. \<lparr>time = Timestamp (t * 1000000000), area = fst kp,
                val = map_of (map (\<lambda>p. (timestamp p, price p)) (snd kp)) t\<rparr>) idx) (data r)"
    by (simp add: cols_def df_def ts_def comp_def melt_column_map)
  have "convert_to_dataframe r = Inr (concat (map (melt_column ts) cols))"
    unfolding convert_to_dataframe_def b by (simp add: D t rs m)
  then have "convert_to_dataframe r
       = Inr (concat (map (\<lambda>kp. map (\<lambda>t. \<lparr>time = Timestamp (t * 1000000000), area = fst kp,
                val = map_of (map (\<lambda>p. (timestamp p, price p)) (snd kp)) t\<rparr>) idx) (data r)))"
    by (simp only: cc)
  with di si show ?thesis by blast
qed
lemma rows_projection:
  "map (\<lambda>x. (area x, time x))
     (concat (map (\<lambda>kp. map (\<lambda>t. \<lparr>time = f t, area = fst kp, val = g kp t\<rparr>) idx) d))
   = map (\<lambda>kt. (fst kt, f (snd kt))) (List.product (map fst d) idx)"
  by (induction d) (simp_all add: comp_def)

lemma inj_instant: "inj (\<lambda>kt :: string \<times> int. (fst kt, Timestamp (snd kt * 1000000000)))"
  by (rule injI) (simp add: prod_eq_iff)

lemma image_pair_times: "(\<lambda>kt. (fst kt, g (snd kt))) ` (A \<times> B) = A \<times> g ` B"
  by force

lemma timestamps_of_mono:
  assumes "set (map snd d') \<subseteq> set (map snd d)"
  shows "timestamps_of d' \<subseteq> timestamps_of d"
proof
  fix t assume "t \<in> timestamps_of d'"
  then obtain kp where kp: "kp \<in> set d'" and t: "t \<in> timestamp ` set (snd kp)"
    unfolding timestamps_of_def by (rule UN_E)
  from kp have "snd kp \<in> set (map snd d')" by simp
  then have "snd kp \<in> set (map snd d)" using assms by (rule subsetD [rotated])
  then obtain kq where kq: "kq \<in> set d" and eq: "snd kq = snd kp" by auto
  from t have "t \<in> timestamp ` set (snd kq)" unfolding eq .
  with kq show "t \<in> timestamps_of d" unfolding timestamps_of_def by (rule UN_I)
qed

lemma timestamps_of_finite: "finite (timestamps_of d)"
  by (simp add: timestamps_of_def)
text \<open>The table that \<open>transform\<close> builds from a well-formed successful response.\<close>

lemma transform_well_formed:
  assumes "success r"
    and "\<forall>kp \<in> set (data r). snd kp \<noteq> [] \<and> distinct (map timestamp (snd kp))
           \<and> (\<forall>p \<in> set (snd kp). in_bounds (timestamp p))"
  shows "\<exists>rows. transform r = Inr (Some rows)
      \<and> length rows = length (upper_keys (data r)) * card (timestamps_of (upper_keys (data r)))
      \<and> length rows \<le> length (data r) * card (timestamps_of (data r))
      \<and> distinct (map (\<lambda>x. (area x, time x)) rows)
      \<and> set (map (\<lambda>x. (area x, time x)) rows)
          = fst ` set (upper_keys (data r))
            \<times> (\<lambda>t. Timestamp (t * 1000000000)) ` timestamps_of (upper_keys (data r))
      \<and> (\<forall>x \<in> set rows. \<exists>ps t. (area x, ps) \<in> set (upper_keys (data r))
            \<and> time x = Timestamp (t * 1000000000)
            \<and> val x = map_of (map (\<lambda>p. (timestamp p, price p)) ps) t)"
proof -
  define d' where "d' = upper_keys (data r)"
  define r' where "r' = r\<lparr>data := d'\<rparr>"
  have dr: "data r' = d'" and sr: "success r'"
    using assms(1) by (simp_all add: r'_def)
  have vals: "set (map snd d') \<subseteq> set (map snd (data r))"
    unfolding d'_def by (rule upper_keys_values)
  have wf: "\<forall>kp \<in> set d'. snd kp \<noteq> [] \<and> distinct (map timestamp (snd kp))
           \<and> (\<forall>p \<in> set (snd kp). in_bounds (timestamp p))"
  proof
    fix kp assume "kp \<in> set d'"
    then have "snd kp \<in> set (map snd (data r))" using vals by auto
    then obtain kq where kq: "kq \<in> set (data r)" and eq: "snd kq = snd kp" by auto
    from assms(2) kq have "snd kq \<noteq> [] \<and> distinct (map timestamp (snd kq))
           \<and> (\<forall>p \<in> set (snd kq). in_bounds (timestamp p))"
      by (rule bspec)
    then show "snd kp \<noteq> [] \<and> distinct (map timestamp (snd kp))
           \<and> (\<forall>p \<in> set (snd kp). in_bounds (timestamp p))"
      unfolding eq .
  qed
  have ne: "\<forall>kp \<in> set (data r'). snd kp \<noteq> []"
    and ds: "\<forall>kp \<in> set (data r'). distinct (map timestamp (snd kp))"
    and bd: "\<forall>kp \<in> set (data r'). \<forall>p \<in> set (snd kp). in_bounds (timestamp p)"
    using wf by (simp_all only: dr) simp_all
  have keys: "distinct (map fst (data r'))"
    unfolding dr d'_def by (rule upper_keys_distinct)
  have n1: "''time'' \<notin> fst ` set (data r')"
  proof
    assume "''time'' \<in> fst ` set (data r')"
    then have "''time'' \<in> str_upper ` fst ` set (data r)"
      by (simp only: dr d'_def upper_keys_keys)
    then obtain k where "''time'' = str_upper k" by (rule imageE)
    then show False using str_upper_neq_time [of k] by simp
  qed
  have n2: "''value'' \<notin> fst ` set (data r')"
  proof
    assume "''value'' \<in> fst ` set (data r')"
    then have "''value'' \<in> str_upper ` fst ` set (data r)"
      by (simp only: dr d'_def upper_keys_keys)
    then obtain k where "''value'' = str_upper k" by (rule imageE)
    then show False using str_upper_neq_value [of k] by simp
  qed
  obtain idx where di: "distinct idx" and si: "set idx = timestamps_of d'"
    and c: "convert_to_dataframe r'
       = Inr (concat (map (\<lambda>kp. map (\<lambda>t. \<lparr>time = Timestamp (t * 1000000000), area = fst kp,
                val = map_of (map (\<lambda>p. (timestamp p, price p)) (snd kp)) t\<rparr>) idx) d'))"
    using convert_well_formed [OF keys ne ds bd n1 n2] unfolding dr by blast
  define rows where "rows = concat (map (\<lambda>kp. map (\<lambda>t. \<lparr>time = Timestamp (t * 1000000000),
      area = fst kp, val = map_of (map (\<lambda>p. (timestamp p, price p)) (snd kp)) t\<rparr>) idx) d')"
  have t: "transform r = Inr (Some rows)"
    using c assms(1) by (simp add: transform_def Let_def r'_def d'_def rows_def)
  have proj: "map (\<lambda>x. (area x, time x)) rows
      = map (\<lambda>kt. (fst kt, Timestamp (snd kt * 1000000000))) (List.product (map fst d') idx)"
    unfolding rows_def by (rule rows_projection)
  have "length rows = length (map (\<lambda>x. (area x, time x)) rows)" by simp
  also have "\<dots> = length d' * length idx" unfolding proj by simp
  also have "length idx = card (timestamps_of d')"
    using di si by (metis distinct_card)
  finally have len: "length rows = length d' * card (timestamps_of d')" .
  have "length d' \<le> length (data r)"
    unfolding d'_def by (rule upper_keys_length)
  moreover have "card (timestamps_of d') \<le> card (timestamps_of (data r))"
    using timestamps_of_mono [OF vals] timestamps_of_finite by (rule card_mono [rotated])
  ultimately have le: "length rows \<le> length (data r) * card (timestamps_of (data r))"
    unfolding len by (rule mult_le_mono)
  have "distinct (List.product (map fst d') idx)"
    using upper_keys_distinct [of "data r"] di by (simp add: d'_def distinct_product)
  then have dist: "distinct (map (\<lambda>x. (area x, time x)) rows)"
    unfolding proj by (simp only: distinct_map) (simp add: inj_on_subset [OF inj_instant subset_UNIV])
  have st: "set (map (\<lambda>x. (area x, time x)) rows)
          = fst ` set d' \<times> (\<lambda>t. Timestamp (t * 1000000000)) ` timestamps_of d'"
    unfolding proj by (simp only: set_map set_product si) (rule image_pair_times)
  have vl: "\<forall>x \<in> set rows. \<exists>ps t. (area x, ps) \<in> set d'
            \<and> time x = Timestamp (t * 1000000000)
            \<and> val x = map_of (map (\<lambda>p. (timestamp p, price p)) ps) t"
  proof
    fix x assume "x \<in> set rows"
    then obtain kp t where "kp \<in> set d'"
      and x: "x = \<lparr>time = Timestamp (t * 1000000000), area = fst kp,
                val = map_of (map (\<lambda>p. (timestamp p, price p)) (snd kp)) t\<rparr>"
      unfolding rows_def by auto
    then have ax: "(area x, snd kp) \<in> set d'" by simp
    have tx: "time x = Timestamp (t * 1000000000)" by (simp add: x)
    have vx: "val x = map_of (map (\<lambda>p. (timestamp p, price p)) (snd kp)) t" by (simp add: x)
    from ax tx vx show "\<exists>ps t. (area x, ps) \<in> set d'
            \<and> time x = Timestamp (t * 1000000000)
            \<and> val x = map_of (map (\<lambda>p. (timestamp p, price p)) ps) t"
      by blast
  qed
  show ?thesis
  proof (intro exI conjI)
    show "transform r = Inr (Some rows)" by (rule t)
    show "length rows = length (upper_keys (data r)) * card (timestamps_of (upper_keys (data r)))"
      using len unfolding d'_def .
    show "length rows \<le> length (data r) * card (timestamps_of (data r))" by (rule le)
    show "distinct (map (\<lambda>x. (area x, time x)) rows)" by (rule dist)
    show "set (map (\<lambda>x. (area x, time x)) rows)
          = fst ` set (upper_keys (data r))
            \<times> (\<lambda>t. Timestamp (t * 1000000000)) ` timestamps_of (upper_keys (data r))"
      using st unfolding d'_def .
    show "\<forall>x \<in> set rows. \<exists>ps t. (area x, ps) \<in> set (upper_keys (data r))
            \<and> time x = Timestamp (t * 1000000000)
            \<and> val x = map_of (map (\<lambda>p. (timestamp p, price p)) ps) t"
      using vl unfolding d'_def .
  qed
qed
text \<open>
  C1 (as the code has it). For a successful response in which every region has a
  non-empty sequence without repeated timestamps and every timestamp is within the
  nanosecond range, the transformed table has exactly one row for each pair of a
  normalised region and a timestamp of the union of the per-region timestamps: N' times M'
  rows, which is at most N times M, the value of a row being the region's price at that
  timestamp, or missing when the region has no point there.
\<close>

theorem transform_row_per_pair:
  assumes "success r"
    and "\<forall>kp \<in> set (data r). snd kp \<noteq> [] \<and> distinct (map timestamp (snd kp))
           \<and> (\<forall>p \<in> set (snd kp). in_bounds (timestamp p))"
  shows "\<exists>rows. transform r = Inr (Some rows)
      \<and> length rows = length (upper_keys (data r)) * card (timestamps_of (upper_keys (data r)))
      \<and> length rows \<le> length (data r) * card (timestamps_of (data r))
      \<and> distinct (map (\<lambda>x. (area x, time x)) rows)
      \<and> set (map (\<lambda>x. (area x, time x)) rows)
          = fst ` set (upper_keys (data r))
            \<times> (\<lambda>t. Timestamp (t * 1000000000)) ` timestamps_of (upper_keys (data r))
      \<and> (\<forall>x \<in> set rows. \<exists>ps t. (area x, ps) \<in> set (upper_keys (data r))
            \<and> time x = Timestamp (t * 1000000000)
            \<and> val x = map_of (map (\<lambda>p. (timestamp p, price p)) ps) t)"
  using assms by (rule transform_well_formed)

theorem transform_row_per_pair_witness:
  "\<exists>rows. transform \<lparr>success = True,
        data = [(''ee'', [\<lparr>timestamp = 3, price = (10::real)\<rparr>, \<lparr>timestamp = 1, price = 20\<rparr>]),
                (''fi'', [\<lparr>timestamp = 2, price = 30\<rparr>])]\<rparr> = Inr (Some rows)
     \<and> length rows = 6"
proof -
  let ?r = "\<lparr>success = True,
        data = [(''ee'', [\<lparr>timestamp = 3, price = (10::real)\<rparr>, \<lparr>timestamp = 1, price = 20\<rparr>]),
                (''fi'', [\<lparr>timestamp = 2, price = 30\<rparr>])]\<rparr>"
  have s: "success ?r" by simp
  have h: "\<forall>kp \<in> set (data ?r). snd kp \<noteq> [] \<and> distinct (map timestamp (snd kp))
           \<and> (\<forall>p \<in> set (snd kp). in_bounds (timestamp p))"
    by (simp add: in_bounds_def)
  have e: "str_upper ''ee'' = ''EE''" and f: "str_upper ''fi'' = ''FI''" by code_simp+
  have u: "upper_keys [(''ee'', a), (''fi'', b)] = [(''EE'', a), (''FI'', b)]"
    for a b :: "real PricePoint list"
    by (simp add: upper_keys_def e f)
  have c: "card (timestamps_of [(''EE'', [\<lparr>timestamp = 3, price = p\<rparr>, \<lparr>timestamp = 1, price = q\<rparr>]),
                (''FI'', [\<lparr>timestamp = 2, price = s\<rparr>])]) = 3" for p q s :: real
    by (simp add: timestamps_of_def)
  from transform_row_per_pair [OF s h] obtain rows where
    t: "transform ?r = Inr (Some rows)" and
    l: "length rows = length (upper_keys (data ?r)) * card (timestamps_of (upper_keys (data ?r)))"
    by blast
  from l have "length rows = 6" by (simp add: u c)
  with t show ?thesis by blast
qed

text \<open>
  The claim C1 as the specification states it fails: a single region with a repeated
  timestamp has N = 1 region and M = 2 distinct timestamps, and the transformed table
  has three rows, two of them for the same (region, timestamp) pair.
\<close>

theorem repeated_timestamp_exceeds_bound:
  "transform \<lparr>success = True,
      data = [(''fi'', [\<lparr>timestamp = 1, price = (10::real)\<rparr>, \<lparr>timestamp = 1, price = 20\<rparr>,
                        \<lparr>timestamp = 2, price = 30\<rparr>])]\<rparr>
     = Inr (Some [\<lparr>time = Timestamp 1000000000, area = ''FI'', val = Some 10\<rparr>,
                  \<lparr>time = Timestamp 1000000000, area = ''FI'', val = Some 20\<rparr>,
                  \<lparr>time = Timestamp 2000000000, area = ''FI'', val = Some 30\<rparr>])
   \<and> length (data \<lparr>success = True,
      data = [(''fi'', [\<lparr>timestamp = 1, price = (10::real)\<rparr>, \<lparr>timestamp = 1, price = 20\<rparr>,
                        \<lparr>timestamp = 2, price = 30\<rparr>])]\<rparr>)
       * card (timestamps_of (data \<lparr>success = True,
      data = [(''fi'', [\<lparr>timestamp = 1, price = (10::real)\<rparr>, \<lparr>timestamp = 1, price = 20\<rparr>,
                        \<lparr>timestamp = 2, price = 30\<rparr>])]\<rparr>)) = 2"
proof -
  have f: "str_upper ''fi'' = ''FI''" by code_simp
  have u: "upper_keys [(''fi'', a)] = [(''FI'', a)]" for a :: "real PricePoint list"
    by (simp add: upper_keys_def f)
  have c: "convert_to_dataframe \<lparr>success = True,
      data = [(''FI'', [\<lparr>timestamp = 1, price = p\<rparr>, \<lparr>timestamp = 1, price = q\<rparr>,
                        \<lparr>timestamp = 2, price = s\<rparr>])]\<rparr>
     = Inr [\<lparr>time = Timestamp 1000000000, area = ''FI'', val = Some p\<rparr>,
            \<lparr>time = Timestamp 1000000000, area = ''FI'', val = Some q\<rparr>,
            \<lparr>time = Timestamp 2000000000, area = ''FI'', val = Some s\<rparr>]" for p q s :: real
    by (simp add: convert_to_dataframe_def price_series_def DataFrame_of_dict_def
        union_indexes_def reindex_def to_datetime_def in_bounds_def reset_index_def
        melt_def melt_column_def)
  have t: "card (timestamps_of [(''fi'', [\<lparr>timestamp = 1, price = p\<rparr>, \<lparr>timestamp = 1, price = q\<rparr>,
                        \<lparr>timestamp = 2, price = s\<rparr>])]) = 2" for p q s :: real
    by (simp add: timestamps_of_def)
  show ?thesis by (simp add: transform_def u c t)
qed

section \<open>Repeated timestamps\<close>

lemma homogenize_member:
  "homogenize df idx = Inr cols \<Longrightarrow> (c, s) \<in> set df \<Longrightarrow>
     \<exists>col. (c, col) \<in> set cols \<and> reindex s idx = Inr col"
proof (induction df arbitrary: cols)
  case Nil
  then show ?case by simp
next
  case (Cons cs df)
  obtain c' s' where cs: "cs = (c', s')" by (cases cs)
  from Cons.prems(1) obtain col' cols' where
    r: "reindex s' idx = Inr col'" and h: "homogenize df idx = Inr cols'"
    and cols: "cols = (c', col') # cols'"
    by (auto simp: cs split: sum.splits)
  show ?case
  proof (cases "(c, s) = (c', s')")
    case True
    then show ?thesis using r cols by auto
  next
    case False
    then have "(c, s) \<in> set df" using Cons.prems(2) cs by auto
    with h obtain col where "(c, col) \<in> set cols'" "reindex s idx = Inr col"
      using Cons.IH by blast
    then show ?thesis using cols by auto
  qed
qed

lemma reindex_repeated:
  "reindex s idx = Inr col \<Longrightarrow> \<not> distinct (map fst s) \<Longrightarrow>
     map fst s = idx \<and> col = map (\<lambda>tv. Some (snd tv)) s"
  by (auto simp: reindex_def split: if_splits)

lemma union_indexes_repeated:
  "\<not> distinct (union_indexes idxs) \<Longrightarrow> j \<in> set idxs \<Longrightarrow> j = union_indexes idxs"
proof (cases idxs)
  case Nil
  assume "j \<in> set idxs"
  with Nil show ?thesis by simp
next
  case (Cons i others)
  assume nd: "\<not> distinct (union_indexes idxs)" and j: "j \<in> set idxs"
  show ?thesis
  proof (cases "list_all (\<lambda>j. j = i) others")
    case True
    then have "union_indexes idxs = i" using Cons by (simp add: union_indexes_def)
    moreover have "j = i" using j True Cons by (auto simp: list_all_iff)
    ultimately show ?thesis by simp
  next
    case False
    then have "union_indexes idxs = sort (remdups (concat idxs))"
      using Cons by (simp add: union_indexes_def)
    then have "distinct (union_indexes idxs)" by simp
    with nd show ?thesis by simp
  qed
qed

lemma filter_area_melt_column:
  "filter (\<lambda>x. area x = k) (melt_column ts (c, cl))
     = (if c = k then melt_column ts (c, cl) else [])"
  by (auto simp: melt_column_def filter_empty_conv)

lemma filter_area_absent:
  "k \<notin> fst ` set cols \<Longrightarrow> filter (\<lambda>x. area x = k) (concat (map (melt_column ts) cols)) = []"
proof (induction cols)
  case Nil
  then show ?case by simp
next
  case (Cons cc cols)
  obtain c cl where cc: "cc = (c, cl)" by (cases cc)
  have "c \<noteq> k" and "k \<notin> fst ` set cols" using Cons.prems cc by auto
  then show ?case using Cons.IH by (simp add: cc filter_area_melt_column)
qed

lemma filter_area_concat:
  "distinct (map fst cols) \<Longrightarrow> (k, col) \<in> set cols \<Longrightarrow>
     filter (\<lambda>x. area x = k) (concat (map (melt_column ts) cols)) = melt_column ts (k, col)"
proof (induction cols)
  case Nil
  then show ?case by simp
next
  case (Cons cc cols)
  obtain c cl where cc: "cc = (c, cl)" by (cases cc)
  show ?case
  proof (cases "c = k")
    case True
    have absent: "k \<notin> fst ` set cols" using Cons.prems(1) cc True by simp
    then have "(k, col) \<notin> set cols" by (metis fst_conv image_eqI)
    then have "cl = col" using Cons.prems(2) cc True by simp
    then show ?thesis
      using True absent by (simp add: cc filter_area_melt_column filter_area_absent)
  next
    case False
    then have "(k, col) \<in> set cols" using Cons.prems(2) cc by simp
    moreover have "distinct (map fst cols)" using Cons.prems(1) by simp
    ultimately have "filter (\<lambda>x. area x = k) (concat (map (melt_column ts) cols))
        = melt_column ts (k, col)" by (rule Cons.IH [rotated])
    then show ?thesis using False by (simp add: cc filter_area_melt_column)
  qed
qed

lemma build_df_dict_Inr:
  assumes "build_df_dict d [] = Inr df" and "distinct (map fst d)"
  shows "df = map (\<lambda>kp. (fst kp, map (\<lambda>p. (timestamp p, price p)) (snd kp))) d"
proof -
  have "\<forall>ps \<in> set (map snd d). ps \<noteq> []"
  proof
    fix ps assume "ps \<in> set (map snd d)"
    then obtain k where k: "(k, ps) \<in> set d" by auto
    show "ps \<noteq> []"
    proof
      assume "ps = []"
      with k have "build_df_dict d [] = Inl (KeyError ''None of [timestamp] are in the columns'')"
        using build_df_dict_empty_region by blast
      with assms(1) show False by simp
    qed
  qed
  then have "build_df_dict d []
       = Inr ([] @ map (\<lambda>kp. (fst kp, map (\<lambda>p. (timestamp p, price p)) (snd kp))) d)"
    using assms(2) build_df_dict_nonempty [of d "[]"] by simp
  with assms(1) show ?thesis by simp
qed

text \<open>
  C3 (as the code has it). \<open>set_index\<close> keeps every entry: when a region's sequence has
  a repeated timestamp and \<open>convert_to_dataframe\<close> returns a table, the rows of that
  region are its entries, one row per entry in sequence order, each with its own price
  (nothing is overwritten), and every region of the response has the same timestamp
  sequence; with regions of different timestamp sequences the alignment raises.
\<close>

theorem repeated_timestamps_kept:
  assumes "distinct (map fst (data r))"
    and "(k, ps) \<in> set (data r)"
    and "\<not> distinct (map timestamp ps)"
    and "convert_to_dataframe r = Inr rows"
  shows "filter (\<lambda>x. area x = k) rows
           = map (\<lambda>p. \<lparr>time = Timestamp (timestamp p * 1000000000), area = k,
                        val = Some (price p)\<rparr>) ps
       \<and> (\<forall>kp \<in> set (data r). map timestamp (snd kp) = map timestamp ps)"
proof -
  from assms(4) obtain df_dict df ts where
    b: "build_df_dict (data r) [] = Inr df_dict" and
    d: "DataFrame_of_dict df_dict = Inr df" and
    t: "to_datetime (index df) = Inr ts" and
    m: "melt \<lparr>index = ts, columns = columns df\<rparr> = Inr rows"
    by (auto simp: convert_to_dataframe_def reset_index_def split: sum.splits if_splits)
  define idx where "idx = union_indexes (map (\<lambda>cs. map fst (snd cs)) df_dict)"
  from d have h: "homogenize df_dict idx = Inr (columns df)" and ix: "index df = idx"
    by (auto simp: DataFrame_of_dict_def Let_def idx_def split: sum.splits)
  have dd: "df_dict = map (\<lambda>kp. (fst kp, map (\<lambda>p. (timestamp p, price p)) (snd kp))) (data r)"
    using b assms(1) by (rule build_df_dict_Inr)
  define s where "s = map (\<lambda>p. (timestamp p, price p)) ps"
  have fs: "map fst s = map timestamp ps" by (simp add: s_def comp_def)
  have "(k, s) \<in> set df_dict"
    using assms(2) unfolding dd s_def by force
  with h obtain col where col: "(k, col) \<in> set (columns df)" and re: "reindex s idx = Inr col"
    using homogenize_member by blast
  have nd: "\<not> distinct (map fst s)" using assms(3) fs by simp
  with re have si: "map fst s = idx" and cl: "col = map (\<lambda>tv. Some (snd tv)) s"
    using reindex_repeated by blast+
  from t have ts: "ts = map (\<lambda>t. Timestamp (t * 1000000000)) idx"
    by (auto simp: to_datetime_def ix split: if_splits)
  from m have rows: "rows = concat (map (melt_column ts) (columns df))"
    by (auto simp: melt_def split: if_splits)
  have "map fst (columns df) = map fst df_dict" using h by (rule homogenize_keys)
  then have "distinct (map fst (columns df))" using assms(1) by (simp add: dd comp_def)
  then have "filter (\<lambda>x. area x = k) rows = melt_column ts (k, col)"
    unfolding rows using col by (rule filter_area_concat)
  also have "\<dots> = melt_column (map (\<lambda>tv. Timestamp (fst tv * 1000000000)) s)
                      (k, map (\<lambda>tv. Some (snd tv)) s)"
    by (simp add: ts si [symmetric] cl comp_def)
  also have "\<dots> = map (\<lambda>tv. \<lparr>time = Timestamp (fst tv * 1000000000), area = k,
                              val = Some (snd tv)\<rparr>) s"
    by (rule melt_column_map)
  also have "\<dots> = map (\<lambda>p. \<lparr>time = Timestamp (timestamp p * 1000000000), area = k,
                        val = Some (price p)\<rparr>) ps"
    by (simp add: s_def comp_def)
  finally have first: "filter (\<lambda>x. area x = k) rows
           = map (\<lambda>p. \<lparr>time = Timestamp (timestamp p * 1000000000), area = k,
                        val = Some (price p)\<rparr>) ps" .
  have ndi: "\<not> distinct (union_indexes (map (\<lambda>cs. map fst (snd cs)) df_dict))"
    using nd si by (simp add: idx_def)
  have second: "\<forall>kp \<in> set (data r). map timestamp (snd kp) = map timestamp ps"
  proof
    fix kp assume "kp \<in> set (data r)"
    then have "map timestamp (snd kp) \<in> set (map (\<lambda>cs. map fst (snd cs)) df_dict)"
      by (force simp: dd comp_def)
    with ndi have "map timestamp (snd kp) = union_indexes (map (\<lambda>cs. map fst (snd cs)) df_dict)"
      by (rule union_indexes_repeated)
    then show "map timestamp (snd kp) = map timestamp ps"
      using si fs by (simp add: idx_def)
  qed
  from first second show ?thesis by (rule conjI)
qed

theorem repeated_timestamps_kept_witness:
  "convert_to_dataframe \<lparr>success = True,
      data = [(''FI'', [\<lparr>timestamp = 5, price = (1::real)\<rparr>, \<lparr>timestamp = 5, price = 2\<rparr>]),
              (''SE'', [\<lparr>timestamp = 5, price = 3\<rparr>, \<lparr>timestamp = 5, price = 4\<rparr>])]\<rparr>
     = Inr [\<lparr>time = Timestamp 5000000000, area = ''FI'', val = Some 1\<rparr>,
            \<lparr>time = Timestamp 5000000000, area = ''FI'', val = Some 2\<rparr>,
            \<lparr>time = Timestamp 5000000000, area = ''SE'', val = Some 3\<rparr>,
            \<lparr>time = Timestamp 5000000000, area = ''SE'', val = Some 4\<rparr>]
   \<and> filter (\<lambda>x. area x = ''SE'')
        [\<lparr>time = Timestamp 5000000000, area = ''FI'', val = Some (1::real)\<rparr>,
         \<lparr>time = Timestamp 5000000000, area = ''FI'', val = Some 2\<rparr>,
         \<lparr>time = Timestamp 5000000000, area = ''SE'', val = Some 3\<rparr>,
         \<lparr>time = Timestamp 5000000000, area = ''SE'', val = Some 4\<rparr>]
     = [\<lparr>time = Timestamp 5000000000, area = ''SE'', val = Some 3\<rparr>,
        \<lparr>time = Timestamp 5000000000, area = ''SE'', val = Some 4\<rparr>]"
proof -
  let ?r = "\<lparr>success = True,
      data = [(''FI'', [\<lparr>timestamp = 5, price = (1::real)\<rparr>, \<lparr>timestamp = 5, price = 2\<rparr>]),
              (''SE'', [\<lparr>timestamp = 5, price = 3\<rparr>, \<lparr>timestamp = 5, price = 4\<rparr>])]\<rparr>"
  let ?rows = "[\<lparr>time = Timestamp 5000000000, area = ''FI'', val = Some (1::real)\<rparr>,
            \<lparr>time = Timestamp 5000000000, area = ''FI'', val = Some 2\<rparr>,
            \<lparr>time = Timestamp 5000000000, area = ''SE'', val = Some 3\<rparr>,
            \<lparr>time = Timestamp 5000000000, area = ''SE'', val = Some 4\<rparr>]"
  have c: "convert_to_dataframe ?r = Inr ?rows"
    by (simp add: convert_to_dataframe_def price_series_def DataFrame_of_dict_def
        union_indexes_def reindex_def to_datetime_def in_bounds_def reset_index_def
        melt_def melt_column_def)
  have k: "distinct (map fst (data ?r))" by simp
  have i: "(''SE'', [\<lparr>timestamp = 5, price = (3::real)\<rparr>, \<lparr>timestamp = 5, price = 4\<rparr>])
             \<in> set (data ?r)" by simp
  have n: "\<not> distinct (map timestamp [\<lparr>timestamp = 5, price = (3::real)\<rparr>,
             \<lparr>timestamp = 5, price = 4\<rparr>])" by simp
  from repeated_timestamps_kept [OF k i n c]
  have "filter (\<lambda>x. area x = ''SE'') ?rows
      = [\<lparr>time = Timestamp 5000000000, area = ''SE'', val = Some 3\<rparr>,
         \<lparr>time = Timestamp 5000000000, area = ''SE'', val = Some 4\<rparr>]"
    by simp
  with c show ?thesis by (rule conjI)
qed

text \<open>
  The claim C3 as the specification states it fails: a region with two entries at the
  same timestamp keeps both rows, the first price as well as the last.
\<close>

theorem repeated_timestamp_not_overwritten:
  "convert_to_dataframe \<lparr>success = True,
      data = [(''EE'', [\<lparr>timestamp = 1, price = (10::real)\<rparr>, \<lparr>timestamp = 1, price = 20\<rparr>])]\<rparr>
     = Inr [\<lparr>time = Timestamp 1000000000, area = ''EE'', val = Some 10\<rparr>,
            \<lparr>time = Timestamp 1000000000, area = ''EE'', val = Some 20\<rparr>]
   \<and> length (filter (\<lambda>x. area x = ''EE'' \<and> time x = Timestamp 1000000000)
        [\<lparr>time = Timestamp 1000000000, area = ''EE'', val = Some (10::real)\<rparr>,
         \<lparr>time = Timestamp 1000000000, area = ''EE'', val = Some 20\<rparr>]) = 2"
  by (simp add: convert_to_dataframe_def price_series_def DataFrame_of_dict_def
      union_indexes_def reindex_def to_datetime_def in_bounds_def reset_index_def
      melt_def melt_column_def)

section \<open>Colliding region keys\<close>

lemma map_of_price_series:
  "distinct (map timestamp ps) \<Longrightarrow> p \<in> set ps \<Longrightarrow>
     map_of (map (\<lambda>p. (timestamp p, price p)) ps) (timestamp p) = Some (price p)"
proof -
  assume d: "distinct (map timestamp ps)" and p: "p \<in> set ps"
  have dm: "distinct (map fst (map (\<lambda>p. (timestamp p, price p)) ps))"
    using d by (simp add: comp_def)
  have "(timestamp p, price p) \<in> (\<lambda>p. (timestamp p, price p)) ` set ps"
    using p by (rule imageI)
  then have "(timestamp p, price p) \<in> set (map (\<lambda>p. (timestamp p, price p)) ps)"
    by (simp only: set_map)
  with dm show ?thesis by (rule map_of_is_SomeI)
qed

lemma instant_eq: "Timestamp (t * 1000000000) = Timestamp (u * 1000000000) \<Longrightarrow> t = u"
  by simp

text \<open>
  C9. When two keys of the data mapping are equal after upper-casing, the normalisation
  of \<open>main\<close> keeps one entry for them, holding the price sequence of the key iterated
  last; the sequence of the earlier key is dropped without any error: the transformed
  output is the same whatever that sequence is, and when the response reports success
  and the other sequences are well formed a table is produced whose rows for that area
  carry the prices of the last key's sequence, every point of it and nothing else.
\<close>

theorem colliding_keys_last_wins:
  assumes "data r = xs @ (k1, ps1) # ys @ (k2, ps2) # zs"
    and "str_upper k1 = str_upper k2"
    and "\<forall>k \<in> fst ` set zs. str_upper k \<noteq> str_upper k2"
  shows "filter (\<lambda>kv. fst kv = str_upper k2) (upper_keys (data r)) = [(str_upper k2, ps2)]
       \<and> transform (r\<lparr>data := xs @ (k1, ps1') # ys @ (k2, ps2) # zs\<rparr>) = transform r
       \<and> (success r \<longrightarrow>
            (\<forall>kp \<in> set (xs @ ys @ (k2, ps2) # zs).
                snd kp \<noteq> [] \<and> distinct (map timestamp (snd kp))
                \<and> (\<forall>p \<in> set (snd kp). in_bounds (timestamp p))) \<longrightarrow>
            (\<exists>rows. transform r = Inr (Some rows)
               \<and> (\<forall>p \<in> set ps2.
                     \<lparr>time = Timestamp (timestamp p * 1000000000), area = str_upper k2,
                      val = Some (price p)\<rparr> \<in> set rows)
               \<and> (\<forall>x \<in> set rows. area x = str_upper k2 \<longrightarrow>
                     (\<exists>t. time x = Timestamp (t * 1000000000)
                        \<and> val x = map_of (map (\<lambda>p. (timestamp p, price p)) ps2) t))))"
proof -
  have "map_of (upper_keys ((xs @ (k1, ps1) # ys) @ (k2, ps2) # zs)) (str_upper k2) = Some ps2"
    using assms(3) by (rule upper_keys_last_wins)
  then have m: "map_of (upper_keys (data r)) (str_upper k2) = Some ps2"
    by (simp add: assms(1))
  have f: "filter (\<lambda>kv. fst kv = str_upper k2) (upper_keys (data r)) = [(str_upper k2, ps2)]"
    using upper_keys_distinct m by (rule filter_key_distinct)
  have c: "str_upper k1 \<in> str_upper ` fst ` set (ys @ (k2, ps2) # zs)"
    using assms(2) by simp
  have uk: "upper_keys (xs @ (k1, v) # ys @ (k2, ps2) # zs)
      = upper_keys (xs @ (k1, ps1) # ys @ (k2, ps2) # zs)" for v
    using c by (rule upper_keys_earlier_dropped)
  have ind: "transform (r\<lparr>data := xs @ (k1, v) # ys @ (k2, ps2) # zs\<rparr>) = transform r" for v
    using uk [of v] by (simp add: transform_def assms(1))
  have out: "\<exists>rows. transform r = Inr (Some rows)
               \<and> (\<forall>p \<in> set ps2.
                     \<lparr>time = Timestamp (timestamp p * 1000000000), area = str_upper k2,
                      val = Some (price p)\<rparr> \<in> set rows)
               \<and> (\<forall>x \<in> set rows. area x = str_upper k2 \<longrightarrow>
                     (\<exists>t. time x = Timestamp (t * 1000000000)
                        \<and> val x = map_of (map (\<lambda>p. (timestamp p, price p)) ps2) t))"
    if s: "success r"
      and wf: "\<forall>kp \<in> set (xs @ ys @ (k2, ps2) # zs).
                snd kp \<noteq> [] \<and> distinct (map timestamp (snd kp))
                \<and> (\<forall>p \<in> set (snd kp). in_bounds (timestamp p))"
  proof -
    define r2 where "r2 = r\<lparr>data := xs @ (k1, ps2) # ys @ (k2, ps2) # zs\<rparr>"
    define d' where "d' = upper_keys (data r)"
    have t2: "transform r2 = transform r" unfolding r2_def by (rule ind)
    have s2: "success r2" using s by (simp add: r2_def)
    have d2: "upper_keys (data r2) = d'"
      using uk [of ps2] by (simp add: r2_def d'_def assms(1))
    have w2: "snd (k2, ps2) \<noteq> [] \<and> distinct (map timestamp (snd (k2, ps2)))
                \<and> (\<forall>p \<in> set (snd (k2, ps2)). in_bounds (timestamp p))"
      using wf by (rule bspec) simp
    have wf2: "\<forall>kp \<in> set (data r2). snd kp \<noteq> [] \<and> distinct (map timestamp (snd kp))
           \<and> (\<forall>p \<in> set (snd kp). in_bounds (timestamp p))"
    proof
      fix kp assume "kp \<in> set (data r2)"
      then have "kp = (k1, ps2) \<or> kp \<in> set (xs @ ys @ (k2, ps2) # zs)"
        by (auto simp: r2_def)
      then show "snd kp \<noteq> [] \<and> distinct (map timestamp (snd kp))
           \<and> (\<forall>p \<in> set (snd kp). in_bounds (timestamp p))"
      proof
        assume "kp = (k1, ps2)"
        then show ?thesis using w2 by simp
      next
        assume "kp \<in> set (xs @ ys @ (k2, ps2) # zs)"
        with wf show ?thesis by (rule bspec)
      qed
    qed
    note wfr = transform_well_formed [OF s2 wf2]
    from wfr obtain rows where
      t: "transform r2 = Inr (Some rows)" and
      st: "set (map (\<lambda>x. (area x, time x)) rows)
          = fst ` set (upper_keys (data r2))
            \<times> (\<lambda>t. Timestamp (t * 1000000000)) ` timestamps_of (upper_keys (data r2))" and
      vl: "\<forall>x \<in> set rows. \<exists>ps t. (area x, ps) \<in> set (upper_keys (data r2))
            \<and> time x = Timestamp (t * 1000000000)
            \<and> val x = map_of (map (\<lambda>p. (timestamp p, price p)) ps) t"
      by (elim exE conjE) (rule that, assumption+)
    have mem: "(str_upper k2, ps2) \<in> set d'"
    proof -
      have "(str_upper k2, ps2) \<in> set (filter (\<lambda>kv. fst kv = str_upper k2) d')"
        unfolding d'_def f by simp
      then show ?thesis by simp
    qed
    have only: "ps = ps2" if "(str_upper k2, ps) \<in> set d'" for ps
    proof -
      from that have "(str_upper k2, ps) \<in> set (filter (\<lambda>kv. fst kv = str_upper k2) d')"
        by simp
      then show ?thesis unfolding d'_def f by simp
    qed
    have carried: "\<exists>t. time x = Timestamp (t * 1000000000)
        \<and> val x = map_of (map (\<lambda>p. (timestamp p, price p)) ps2) t"
      if x: "x \<in> set rows" and a: "area x = str_upper k2" for x
    proof -
      from vl x have "\<exists>ps t. (area x, ps) \<in> set (upper_keys (data r2))
            \<and> time x = Timestamp (t * 1000000000)
            \<and> val x = map_of (map (\<lambda>p. (timestamp p, price p)) ps) t"
        by (rule bspec)
      then obtain ps t where "(area x, ps) \<in> set d'"
        and tx: "time x = Timestamp (t * 1000000000)"
        and vx: "val x = map_of (map (\<lambda>p. (timestamp p, price p)) ps) t"
        unfolding d2 by (elim exE conjE) (rule that, assumption+)
      then have "ps = ps2" using a only by simp
      with tx vx show ?thesis by (intro exI [of _ t] conjI) simp_all
    qed
    have present: "\<lparr>time = Timestamp (timestamp p * 1000000000), area = str_upper k2,
                      val = Some (price p)\<rparr> \<in> set rows"
      if p: "p \<in> set ps2" for p
    proof -
      have k: "str_upper k2 \<in> fst ` set d'"
        using mem by (rule rev_image_eqI) simp
      have "timestamp p \<in> timestamp ` set (snd (str_upper k2, ps2))"
        using p by simp
      with mem have "timestamp p \<in> timestamps_of d'"
        unfolding timestamps_of_def by (rule UN_I)
      then have "(str_upper k2, Timestamp (timestamp p * 1000000000))
          \<in> set (map (\<lambda>x. (area x, time x)) rows)"
        unfolding st d2 using k by simp
      then obtain x where x: "x \<in> set rows" and a: "area x = str_upper k2"
        and tm: "time x = Timestamp (timestamp p * 1000000000)"
        by auto
      from carried [OF x a] obtain t where tx: "time x = Timestamp (t * 1000000000)"
        and vx: "val x = map_of (map (\<lambda>p. (timestamp p, price p)) ps2) t"
        by (elim exE conjE) (rule that, assumption+)
      from tx tm have "t = timestamp p" by simp
      moreover have "distinct (map timestamp ps2)" using w2 by simp
      ultimately have "val x = Some (price p)"
        using vx p by (simp add: map_of_price_series)
      with a tm have "x = \<lparr>time = Timestamp (timestamp p * 1000000000), area = str_upper k2,
                      val = Some (price p)\<rparr>"
        by simp
      with x show ?thesis by simp
    qed
    from t t2 have tr: "transform r = Inr (Some rows)" by simp
    show ?thesis
    proof (intro exI [of _ rows] conjI ballI impI)
      show "transform r = Inr (Some rows)" by (rule tr)
    next
      fix p assume "p \<in> set ps2"
      then show "\<lparr>time = Timestamp (timestamp p * 1000000000), area = str_upper k2,
                      val = Some (price p)\<rparr> \<in> set rows"
        by (rule present)
    next
      fix x assume "x \<in> set rows" and "area x = str_upper k2"
      then show "\<exists>t. time x = Timestamp (t * 1000000000)
                        \<and> val x = map_of (map (\<lambda>p. (timestamp p, price p)) ps2) t"
        by (rule carried)
    qed
  qed
  show ?thesis
  proof (intro conjI impI)
    show "filter (\<lambda>kv. fst kv = str_upper k2) (upper_keys (data r)) = [(str_upper k2, ps2)]"
      by (rule f)
    show "transform (r\<lparr>data := xs @ (k1, ps1') # ys @ (k2, ps2) # zs\<rparr>) = transform r"
      by (rule ind)
  next
    assume "success r"
      and "\<forall>kp \<in> set (xs @ ys @ (k2, ps2) # zs).
                snd kp \<noteq> [] \<and> distinct (map timestamp (snd kp))
                \<and> (\<forall>p \<in> set (snd kp). in_bounds (timestamp p))"
    then show "\<exists>rows. transform r = Inr (Some rows)
               \<and> (\<forall>p \<in> set ps2.
                     \<lparr>time = Timestamp (timestamp p * 1000000000), area = str_upper k2,
                      val = Some (price p)\<rparr> \<in> set rows)
               \<and> (\<forall>x \<in> set rows. area x = str_upper k2 \<longrightarrow>
                     (\<exists>t. time x = Timestamp (t * 1000000000)
                        \<and> val x = map_of (map (\<lambda>p. (timestamp p, price p)) ps2) t))"
      by (rule out)
  qed
qed

theorem colliding_keys_last_wins_witness:
  "filter (\<lambda>kv. fst kv = str_upper ''EE'')
      (upper_keys [(''ee'', [\<lparr>timestamp = 1, price = (10::real)\<rparr>]),
                   (''EE'', [\<lparr>timestamp = 2, price = 20\<rparr>])])
     = [(str_upper ''EE'', [\<lparr>timestamp = 2, price = 20\<rparr>])]
   \<and> transform \<lparr>success = True, data = [(''ee'', []),
                   (''EE'', [\<lparr>timestamp = 2, price = (20::real)\<rparr>])]\<rparr>
     = transform \<lparr>success = True, data = [(''ee'', [\<lparr>timestamp = 1, price = 10\<rparr>]),
                   (''EE'', [\<lparr>timestamp = 2, price = 20\<rparr>])]\<rparr>
   \<and> transform \<lparr>success = True, data = [(''ee'', [\<lparr>timestamp = 1, price = (10::real)\<rparr>]),
                   (''EE'', [\<lparr>timestamp = 2, price = 20\<rparr>])]\<rparr>
     = Inr (Some [\<lparr>time = Timestamp 2000000000, area = ''EE'', val = Some 20\<rparr>])
   \<and> (\<exists>rows. transform \<lparr>success = True, data = [(''ee'', [\<lparr>timestamp = 1, price = (10::real)\<rparr>]),
                   (''EE'', [\<lparr>timestamp = 2, price = 20\<rparr>])]\<rparr> = Inr (Some rows)
        \<and> \<lparr>time = Timestamp 2000000000, area = ''EE'', val = Some 20\<rparr> \<in> set rows)"
proof -
  let ?r = "\<lparr>success = True, data = [(''ee'', [\<lparr>timestamp = 1, price = (10::real)\<rparr>]),
                   (''EE'', [\<lparr>timestamp = 2, price = 20\<rparr>])]\<rparr>"
  have u: "str_upper ''ee'' = str_upper ''EE''" by code_simp
  have e: "str_upper ''EE'' = ''EE''" by code_simp
  note th = colliding_keys_last_wins [of ?r "[]" "''ee''" "[\<lparr>timestamp = 1, price = 10\<rparr>]" "[]"
      "''EE''" "[\<lparr>timestamp = 2, price = 20\<rparr>]" "[]" "[]"]
  have a1: "data ?r = [] @ (''ee'', [\<lparr>timestamp = 1, price = 10\<rparr>]) # []
                @ (''EE'', [\<lparr>timestamp = 2, price = 20\<rparr>]) # []" by simp
  have a3: "\<forall>k \<in> fst ` set ([] :: (string \<times> real PricePoint list) list).
      str_upper k \<noteq> str_upper ''EE''" by simp
  note th' = th [OF a1 u a3]
  have s: "success ?r" by simp
  have wf: "\<forall>kp \<in> set ([] @ [] @ (''EE'', [\<lparr>timestamp = 2, price = (20::real)\<rparr>]) # []).
                snd kp \<noteq> [] \<and> distinct (map timestamp (snd kp))
                \<and> (\<forall>p \<in> set (snd kp). in_bounds (timestamp p))"
    by (simp add: in_bounds_def)
  from th' have c1: "filter (\<lambda>kv. fst kv = str_upper ''EE'') (upper_keys (data ?r))
      = [(str_upper ''EE'', [\<lparr>timestamp = 2, price = 20\<rparr>])]"
    by (rule conjunct1)
  from th' have c2: "transform (?r\<lparr>data := [] @ (''ee'', []) # []
        @ (''EE'', [\<lparr>timestamp = 2, price = 20\<rparr>]) # []\<rparr>) = transform ?r"
    by (rule conjunct1 [OF conjunct2])
  from th' s wf obtain rows where t: "transform ?r = Inr (Some rows)"
    and pr: "\<forall>p \<in> set [\<lparr>timestamp = 2, price = (20::real)\<rparr>].
                     \<lparr>time = Timestamp (timestamp p * 1000000000), area = str_upper ''EE'',
                      val = Some (price p)\<rparr> \<in> set rows"
    by blast
  from pr have in_rows: "\<lparr>time = Timestamp 2000000000, area = ''EE'', val = Some 20\<rparr> \<in> set rows"
    by (simp add: e)
  have k: "upper_keys [(''ee'', a), (''EE'', b)] = [(''EE'', b)]" for a b :: "real PricePoint list"
    by (simp add: upper_keys_def u e)
  have cv: "convert_to_dataframe \<lparr>success = True,
      data = [(''EE'', [\<lparr>timestamp = 2, price = p\<rparr>])]\<rparr>
       = Inr [\<lparr>time = Timestamp 2000000000, area = ''EE'', val = Some p\<rparr>]" for p :: real
    by (simp add: convert_to_dataframe_def price_series_def DataFrame_of_dict_def
        union_indexes_def reindex_def to_datetime_def in_bounds_def reset_index_def
        melt_def melt_column_def)
  have tab: "transform ?r = Inr (Some [\<lparr>time = Timestamp 2000000000, area = ''EE'', val = Some 20\<rparr>])"
    by (simp add: transform_def k cv)
  from c1 have g1: "filter (\<lambda>kv. fst kv = str_upper ''EE'')
      (upper_keys [(''ee'', [\<lparr>timestamp = 1, price = (10::real)\<rparr>]),
                   (''EE'', [\<lparr>timestamp = 2, price = 20\<rparr>])])
     = [(str_upper ''EE'', [\<lparr>timestamp = 2, price = 20\<rparr>])]"
    by simp
  from c2 have g2: "transform \<lparr>success = True, data = [(''ee'', []),
                   (''EE'', [\<lparr>timestamp = 2, price = (20::real)\<rparr>])]\<rparr> = transform ?r"
    by simp
  from t in_rows have g4: "\<exists>rows. transform ?r = Inr (Some rows)
        \<and> \<lparr>time = Timestamp 2000000000, area = ''EE'', val = Some 20\<rparr> \<in> set rows"
    by blast
  from g1 g2 tab g4 show ?thesis by (intro conjI)
qed

end
